theory Spec2Isabelle
  imports Main "HOL-Library.Log_Nat"
begin

section \<open>Text helpers of the scripts\<close>

text \<open>
  The scripts of \<^verbatim>\<open>public/script.js\<close> read the rendered page as text. A string is a
  list of characters; the functions below are the JavaScript string operations and the
  regular expressions that the scripts use, written as recursive functions.
\<close>

fun startsWith :: "string \<Rightarrow> string \<Rightarrow> bool" where
  "startsWith s [] = True"
| "startsWith [] (p # ps) = False"
| "startsWith (c # cs) (p # ps) = (c = p \<and> startsWith cs ps)"

text \<open>\<^verbatim>\<open>s.includes(sub)\<close>: some suffix of \<open>s\<close> starts with \<open>sub\<close>.\<close>

fun includesStr :: "string \<Rightarrow> string \<Rightarrow> bool" where
  "includesStr [] sub = (sub = [])"
| "includesStr (c # cs) sub = (startsWith (c # cs) sub \<or> includesStr cs sub)"

definition isDigit :: "char \<Rightarrow> bool" where
  "isDigit c = (c \<in> set ''0123456789'')"

definition isLetter :: "char \<Rightarrow> bool" where
  "isLetter c =
     (c \<in> set ''ABCDEFGHIJKLMNOPQRSTUVWXYZ'' \<or> c \<in> set ''abcdefghijklmnopqrstuvwxyz'')"

text \<open>The character class \<^verbatim>\<open>[A-Z0-9-]\<close> under the flag \<^verbatim>\<open>i\<close>.\<close>

definition isIdChar :: "char \<Rightarrow> bool" where
  "isIdChar c = (isLetter c \<or> isDigit c \<or> c = CHR ''-'')"

text \<open>
  \<^verbatim>\<open>text.match(/#([A-Z0-9-]+)/i)\<close>: the leftmost \<^verbatim>\<open>#\<close> that is followed by at least one
  character of the class; the capture group is the longest run of such characters.
\<close>

fun matchReservation :: "string \<Rightarrow> string option" where
  "matchReservation [] = None"
| "matchReservation (c # cs) =
     (if c = CHR ''#'' \<and> takeWhile isIdChar cs \<noteq> [] then Some (takeWhile isIdChar cs)
      else matchReservation cs)"

text \<open>
  \<^verbatim>\<open>/\d+\.\d{2}/\<close> anchored at the start of a string: a non-empty run of digits (the
  longest one, since a shorter run is followed by a digit and not by the dot), a dot and
  two digits. The result is the pair of the integer digits and the two decimals.
\<close>

definition amountAt :: "string \<Rightarrow> (string \<times> string) option" where
  "amountAt s =
     (let ds = takeWhile isDigit s; rest = dropWhile isDigit s in
      if ds = [] then None
      else (case rest of
              d # f1 # f2 # _ \<Rightarrow>
                if d = CHR ''.'' \<and> isDigit f1 \<and> isDigit f2 then Some (ds, [f1, f2]) else None
            | _ \<Rightarrow> None))"

text \<open>\<^verbatim>\<open>text.match(/\d+\.\d{2}/)\<close>: the match at the leftmost position that has one.\<close>

fun matchAmount :: "string \<Rightarrow> (string \<times> string) option" where
  "matchAmount [] = None"
| "matchAmount (c # cs) =
     (case amountAt (c # cs) of Some m \<Rightarrow> Some m | None \<Rightarrow> matchAmount cs)"

definition digitVal :: "char \<Rightarrow> nat" where
  "digitVal c = of_char c - 48"

definition digitsVal :: "string \<Rightarrow> nat" where
  "digitsVal ds = foldl (\<lambda>acc c. 10 * acc + digitVal c) 0 ds"

text \<open>
  \<^verbatim>\<open>parseFloat\<close> of a match of \<^verbatim>\<open>/\d+\.\d{2}/\<close>. The scripts only test the number
  against zero and pass it on, so the model keeps the decimal exactly, as a number of
  cents: it is zero exactly when the JavaScript number is.
\<close>

definition parseCents :: "string \<times> string \<Rightarrow> nat" where
  "parseCents m = digitsVal (fst m @ snd m)"

fun splitOn :: "char \<Rightarrow> string \<Rightarrow> string list" where
  "splitOn sep [] = [[]]"
| "splitOn sep (c # cs) =
     (if c = sep then [] # splitOn sep cs
      else (case splitOn sep cs of [] \<Rightarrow> [[c]] | w # ws \<Rightarrow> (c # w) # ws))"

section \<open>Purchase tracking on the confirmation page\<close>

subsection \<open>The host page\<close>

text \<open>
  What the first script reads from its environment: the location, the text of the
  paragraphs \<^verbatim>\<open>p[data-be-text="true"]\<close> in document order, the text of the first
  \<^verbatim>\<open>p[data-testid="shopping-cart-summary-grand-total"]\<close> if there is one, the cookie
  string, the user agent, and the pixel library \<^verbatim>\<open>fbq\<close>. The library is foreign code:
  it may be missing, callable, or callable and throwing.
\<close>

datatype fbq_kind = FbqMissing | FbqCallable | FbqThrowing

record page =
  href :: string
  beTextParagraphs :: "string list"
  grandTotalText :: "string option"
  cookie :: string
  userAgent :: string
  fbq :: fbq_kind

datatype warning =
    NoReservationIdOnPage
  | NoValidAmount
  | AbortNoReservationId
  | AbortNoAmount
  | FbqNotAvailable

text \<open>
  Console output through \<^verbatim>\<open>console.log\<close> is not modelled; the messages of
  \<^verbatim>\<open>console.warn\<close> are, as values of \<^typ>\<open>warning\<close>.
\<close>

fun stripLeadingSpaces :: "string \<Rightarrow> string" where
  "stripLeadingSpaces [] = []"
| "stripLeadingSpaces (c # cs) = (if c = CHR '' '' then stripLeadingSpaces cs else c # cs)"

fun firstCookie :: "string \<Rightarrow> string list \<Rightarrow> string option" where
  "firstCookie nameEQ [] = None"
| "firstCookie nameEQ (c # ca) =
     (let c' = stripLeadingSpaces c in
      if startsWith c' nameEQ then Some (drop (length nameEQ) c') else firstCookie nameEQ ca)"

definition getCookie :: "string \<Rightarrow> page \<Rightarrow> string option" where
  "getCookie name p = firstCookie (name @ ''='') (splitOn CHR '';'' (cookie p))"

text \<open>
  The loop of \<^verbatim>\<open>getReservationIdFromPageText\<close> over the candidate paragraphs: the
  first paragraph that contains the marker text and in which the pattern matches.
\<close>

fun scanReservation :: "string list \<Rightarrow> string option" where
  "scanReservation [] = None"
| "scanReservation (t # ts) =
     (if includesStr t ''reservation number is #'' then
        (case matchReservation t of Some r \<Rightarrow> Some r | None \<Rightarrow> scanReservation ts)
      else scanReservation ts)"

text \<open>Each reader returns its result and the warnings it writes.\<close>

definition getReservationIdFromPageText :: "page \<Rightarrow> string option \<times> warning list" where
  "getReservationIdFromPageText p =
     (case scanReservation (beTextParagraphs p) of
        None \<Rightarrow> (None, [NoReservationIdOnPage])
      | Some r \<Rightarrow> (Some r, []))"

definition getTotalAmount :: "page \<Rightarrow> nat option \<times> warning list" where
  "getTotalAmount p =
     (case grandTotalText p of
        None \<Rightarrow> (None, [NoValidAmount])
      | Some t \<Rightarrow>
          (case matchAmount t of
             None \<Rightarrow> (None, [NoValidAmount])
           | Some m \<Rightarrow> (Some (parseCents m), [])))"

subsection \<open>The tracker's state\<close>

record zapier_payload =
  cloudbeds_reservation_id :: string
  zp_fbc :: "string option"
  zp_fbp :: "string option"
  client_user_agent :: string
  client_event_source_url :: string
  zp_cents :: nat
  zp_currency :: string

record pixel_data =
  event_id :: string
  event_source_url :: string
  px_cents :: nat
  px_currency :: string

text \<open>
  The two globals of the script (\<^verbatim>\<open>window.__purchaseEventFired\<close>, absent or true, and
  \<^verbatim>\<open>window.__purchaseEventCheckInterval\<close>, absent, null or a timer handle), the
  browser's table of live intervals, and what the script has sent: the webhook requests
  handed to \<^verbatim>\<open>fetch\<close>, the \<^verbatim>\<open>Purchase\<close> events of the calls of \<^verbatim>\<open>fbq\<close> that
  returned, the warnings, and the number of exceptions that left a timer callback
  (the browser reports them and goes on).
\<close>

record tracker =
  host :: page
  purchaseEventFired :: bool
  purchaseEventCheckInterval :: "nat option"
  intervals :: "nat list"
  lastHandle :: nat
  fetches :: "zapier_payload list"
  pixels :: "pixel_data list"
  warnings :: "warning list"
  uncaught :: nat

datatype 'a outcome = Returned 'a | Threw

text \<open>A handle is truthy when it is a number other than zero.\<close>

fun truthy :: "nat option \<Rightarrow> bool" where
  "truthy None = False"
| "truthy (Some h) = (h \<noteq> 0)"

text \<open>\<^verbatim>\<open>setInterval\<close> returns a fresh handle, an integer greater than zero.\<close>

definition setInterval :: "tracker \<Rightarrow> nat \<times> tracker" where
  "setInterval s =
     (let h = Suc (lastHandle s) in (h, s\<lparr>intervals := intervals s @ [h], lastHandle := h\<rparr>))"

fun clearInterval :: "nat option \<Rightarrow> tracker \<Rightarrow> tracker" where
  "clearInterval None s = s"
| "clearInterval (Some h) s = s\<lparr>intervals := removeAll h (intervals s)\<rparr>"

definition warn :: "warning list \<Rightarrow> tracker \<Rightarrow> tracker" where
  "warn ws s = s\<lparr>warnings := warnings s @ ws\<rparr>"

definition executeTrackingLogic :: "tracker \<Rightarrow> bool outcome \<times> tracker" where
  "executeTrackingLogic s =
     (let p = host s; (reservationId, w1) = getReservationIdFromPageText p; s1 = warn w1 s in
      case reservationId of
        None \<Rightarrow> (Returned False, warn [AbortNoReservationId] s1)
      | Some rid \<Rightarrow>
          (let (amount, w2) = getTotalAmount p; s2 = warn w2 s1 in
           case amount of
             None \<Rightarrow> (Returned False, warn [AbortNoAmount] s2)
           | Some v \<Rightarrow>
               if v = 0 then (Returned False, warn [AbortNoAmount] s2)
               else
                 (let s3 = s2\<lparr>fetches := fetches s2 @
                        [\<lparr>cloudbeds_reservation_id = rid,
                          zp_fbc = getCookie ''_fbc'' p,
                          zp_fbp = getCookie ''_fbp'' p,
                          client_user_agent = userAgent p,
                          client_event_source_url = href p,
                          zp_cents = v,
                          zp_currency = ''USD''\<rparr>]\<rparr> in
                  if fbq p \<noteq> FbqMissing \<and> \<not> purchaseEventFired s3 then
                    (if fbq p = FbqThrowing then (Threw, s3)
                     else
                       (Returned True,
                        s3\<lparr>pixels := pixels s3 @
                             [\<lparr>event_id = rid, event_source_url = href p,
                               px_cents = v, px_currency = ''USD''\<rparr>],
                           purchaseEventFired := True\<rparr>))
                  else if purchaseEventFired s3 then (Returned True, s3)
                  else (Returned True, warn [FbqNotAvailable] s3))))"

definition isConfirmation :: "page \<Rightarrow> bool" where
  "isConfirmation p = includesStr (href p) ''/confirmation''"

definition checkConfirmationPage :: "tracker \<Rightarrow> tracker" where
  "checkConfirmationPage s =
     (if isConfirmation (host s) then
        (if \<not> truthy (purchaseEventCheckInterval s) then
           (let (h, s') = setInterval s in s'\<lparr>purchaseEventCheckInterval := Some h\<rparr>)
         else s)
      else
        (if truthy (purchaseEventCheckInterval s) then
           (clearInterval (purchaseEventCheckInterval s) s)
             \<lparr>purchaseEventCheckInterval := None, purchaseEventFired := False\<rparr>
         else s))"

text \<open>
  The callback of the interval that \<^verbatim>\<open>checkConfirmationPage\<close> creates. An exception
  of the tracking logic leaves the callback; the browser reports it.
\<close>

definition intervalCallback :: "tracker \<Rightarrow> tracker" where
  "intervalCallback s =
     (case executeTrackingLogic s of
        (Returned True, s') \<Rightarrow>
          (clearInterval (purchaseEventCheckInterval s') s')\<lparr>purchaseEventCheckInterval := None\<rparr>
      | (Returned False, s') \<Rightarrow> s'
      | (Threw, s') \<Rightarrow> s'\<lparr>uncaught := Suc (uncaught s')\<rparr>)"

text \<open>
  What can happen to the tracker: the host page changes (location, document, cookies,
  pixel library), a navigation signal runs \<^verbatim>\<open>checkConfirmationPage\<close> (the listeners of
  \<^verbatim>\<open>DOMContentLoaded\<close> and \<^verbatim>\<open>popstate\<close>, and the timeout of the history wrappers), or
  the timer with a given handle is due. A handle that is not live runs nothing.
\<close>

datatype event = Host page | Signal | Tick nat

fun step :: "event \<Rightarrow> tracker \<Rightarrow> tracker" where
  "step (Host p) s = s\<lparr>host := p\<rparr>"
| "step Signal s = checkConfirmationPage s"
| "step (Tick h) s = (if h \<in> set (intervals s) then intervalCallback s else s)"

fun run :: "event list \<Rightarrow> tracker \<Rightarrow> tracker" where
  "run [] s = s"
| "run (e # es) s = run es (step e s)"

text \<open>
  The script as loaded. No global is set. Loading registers the listeners and the
  history wrappers, which calls nothing of the page's own, and the last statement runs
  the check; the tracking logic itself runs in timer callbacks only.
\<close>

definition fresh :: "page \<Rightarrow> tracker" where
  "fresh p =
     \<lparr>host = p, purchaseEventFired = False, purchaseEventCheckInterval = None,
      intervals = [], lastHandle = 0, fetches = [], pixels = [], warnings = [],
      uncaught = 0\<rparr>"

definition loadScript :: "page \<Rightarrow> unit outcome \<times> tracker" where
  "loadScript p = (Returned (), checkConfirmationPage (fresh p))"

section \<open>Polling for the price after a click on Add\<close>

fun stripSpaces :: "string \<Rightarrow> string" where
  "stripSpaces [] = []"
| "stripSpaces (c # cs) =
     (if c \<in> set [CHR '' '', CHR 0x09, CHR 0x0A, CHR 0x0B, CHR 0x0C, CHR 0x0D]
      then stripSpaces cs else c # cs)"

text \<open>\<^verbatim>\<open>s.trim()\<close>, for the white space of ASCII.\<close>

definition trim :: "string \<Rightarrow> string" where
  "trim s = rev (stripSpaces (rev (stripSpaces s)))"

text \<open>
  \<^verbatim>\<open>getPriceValue\<close> of the second script returns a promise and starts a chain of
  timeouts: the first after 500 ms, every further one 200 ms after a check that found no
  price. The record holds the counter \<^verbatim>\<open>attempts\<close> of the closure, the delay of the
  timeout that is pending (if one is), and the amount the promise was resolved with.
\<close>

record price_poll =
  attempts :: nat
  pendingDelay :: "nat option"
  resolved :: "nat option"

definition getPriceValue :: price_poll where
  "getPriceValue = \<lparr>attempts = 0, pendingDelay = Some 500, resolved = None\<rparr>"

text \<open>
  \<^verbatim>\<open>checkPrice\<close>, given the text of
  \<^verbatim>\<open>p[data-testid="shopping-cart-banner-grand-total"]\<close> when the element exists.
\<close>

definition checkPrice :: "string option \<Rightarrow> price_poll \<Rightarrow> price_poll" where
  "checkPrice priceElement p =
     (let again = p\<lparr>attempts := Suc (attempts p), pendingDelay := Some 200\<rparr> in
      case priceElement of
        None \<Rightarrow> again
      | Some t \<Rightarrow>
          (case matchAmount (trim t) of
             None \<Rightarrow> again
           | Some m \<Rightarrow> if parseCents m > 0 then p\<lparr>resolved := Some (parseCents m)\<rparr> else again))"

text \<open>The pending timeout of the chain is due: it leaves the timer table and runs.\<close>

definition priceTimeout :: "string option \<Rightarrow> price_poll \<Rightarrow> price_poll" where
  "priceTimeout priceElement p =
     (case pendingDelay p of
        None \<Rightarrow> p
      | Some d \<Rightarrow> checkPrice priceElement (p\<lparr>pendingDelay := None\<rparr>))"

text \<open>The chain run against what the page shows at each timeout, in order.\<close>

fun pollPrice :: "string option list \<Rightarrow> price_poll \<Rightarrow> price_poll" where
  "pollPrice [] p = p"
| "pollPrice (el # els) p = pollPrice els (priceTimeout el p)"

section \<open>Payment step: the click listener and the error observer\<close>

text \<open>
  Of the third script the model has \<^verbatim>\<open>trackPaymentSubmitClick\<close>,
  \<^verbatim>\<open>trackPaymentError\<close> and \<^verbatim>\<open>checkForTrackingEvents\<close>, up to the point where the
  listener and the observer are attached; what the listener and the observer do when
  they run, and \<^verbatim>\<open>fireAddPaymentInfoOnce\<close>, are left out.

  Each call of the two functions has a counter of its own, which its chain of timeouts
  shares; a chain has one timeout pending at a time, so a pending timeout carries the
  counter's value. The table of timeouts lists delay and callback, oldest first.
\<close>

datatype closure = CheckButton nat | TryObserveBody nat

datatype payment_warning = BookNowButtonNotFound | BodyNotFound

record payment_page =
  pathname :: string
  paymentHref :: string
  documentBody :: bool
  bookNowButton :: bool

record payment_tracker =
  paymentPage :: payment_page
  paymentSubmitClickInitialized :: bool
  paymentErrorObserverInitialized :: bool
  clickListeners :: nat
  bodyObservers :: nat
  timeouts :: "(nat \<times> closure) list"
  paymentWarnings :: "payment_warning list"

definition setTimeout :: "closure \<Rightarrow> nat \<Rightarrow> payment_tracker \<Rightarrow> payment_tracker" where
  "setTimeout f ms s = s\<lparr>timeouts := timeouts s @ [(ms, f)]\<rparr>"

definition trackPaymentSubmitClick :: "payment_tracker \<Rightarrow> payment_tracker" where
  "trackPaymentSubmitClick s =
     (if paymentSubmitClickInitialized s then s
      else setTimeout (CheckButton 0) 500 (s\<lparr>paymentSubmitClickInitialized := True\<rparr>))"

definition checkButton :: "nat \<Rightarrow> payment_tracker \<Rightarrow> payment_tracker" where
  "checkButton n s =
     (if bookNowButton (paymentPage s) then s\<lparr>clickListeners := Suc (clickListeners s)\<rparr>
      else if n < 20 then setTimeout (CheckButton (Suc n)) 200 s
      else s\<lparr>paymentWarnings := paymentWarnings s @ [BookNowButtonNotFound]\<rparr>)"

definition trackPaymentError :: "payment_tracker \<Rightarrow> payment_tracker" where
  "trackPaymentError s =
     (if paymentErrorObserverInitialized s then s
      else setTimeout (TryObserveBody 0) 100 s)"

definition tryObserveBody :: "nat \<Rightarrow> payment_tracker \<Rightarrow> payment_tracker" where
  "tryObserveBody n s =
     (if documentBody (paymentPage s) then
        s\<lparr>bodyObservers := Suc (bodyObservers s), paymentErrorObserverInitialized := True\<rparr>
      else if n < 20 then setTimeout (TryObserveBody (Suc n)) 200 s
      else s\<lparr>paymentWarnings := paymentWarnings s @ [BodyNotFound]\<rparr>)"

definition checkForTrackingEvents :: "payment_tracker \<Rightarrow> payment_tracker" where
  "checkForTrackingEvents s =
     (let p = paymentPage s;
          s1 = (if includesStr (pathname p) ''/reservation/'' \<and> includesStr (paymentHref p) ''/payment''
                then trackPaymentSubmitClick s else s)
      in trackPaymentError s1)"

fun callClosure :: "closure \<Rightarrow> payment_tracker \<Rightarrow> payment_tracker" where
  "callClosure (CheckButton n) s = checkButton n s"
| "callClosure (TryObserveBody n) s = tryObserveBody n s"

text \<open>The timeout at position \<open>i\<close> of the table is due: it leaves the table and runs.\<close>

definition fire :: "nat \<Rightarrow> payment_tracker \<Rightarrow> payment_tracker" where
  "fire i s =
     (if i < length (timeouts s) then
        callClosure (snd (timeouts s ! i))
          (s\<lparr>timeouts := take i (timeouts s) @ drop (Suc i) (timeouts s)\<rparr>)
      else s)"

datatype payment_event = PaymentHost payment_page | PaymentSignal | Fire nat

fun paymentStep :: "payment_event \<Rightarrow> payment_tracker \<Rightarrow> payment_tracker" where
  "paymentStep (PaymentHost p) s = s\<lparr>paymentPage := p\<rparr>"
| "paymentStep PaymentSignal s = checkForTrackingEvents s"
| "paymentStep (Fire i) s = fire i s"

fun paymentRun :: "payment_event list \<Rightarrow> payment_tracker \<Rightarrow> payment_tracker" where
  "paymentRun [] s = s"
| "paymentRun (e # es) s = paymentRun es (paymentStep e s)"

text \<open>The script as loaded: its last statement calls \<^verbatim>\<open>checkForTrackingEvents\<close>.\<close>

definition paymentFresh :: "payment_page \<Rightarrow> payment_tracker" where
  "paymentFresh p =
     \<lparr>paymentPage = p, paymentSubmitClickInitialized = False,
      paymentErrorObserverInitialized = False, clickListeners = 0, bodyObservers = 0,
      timeouts = [], paymentWarnings = []\<rparr>"

definition paymentLoad :: "payment_page \<Rightarrow> payment_tracker" where
  "paymentLoad p = checkForTrackingEvents (paymentFresh p)"

section \<open>The cancellation banner on the guests page\<close>

text \<open>
  The document as the banner script sees it: the elements in document order, each the
  banner (\<^verbatim>\<open>#cancellation-banner\<close>), the summary container (the target selector) or
  something else. Elements are taken as siblings, so the next element sibling of an
  element is the next element of the list.
\<close>

datatype node = Banner | Summary | Other

definition positionOf :: "node \<Rightarrow> node list \<Rightarrow> nat option" where
  "positionOf x doc = (if x \<in> set doc then Some (length (takeWhile (\<lambda>n. n \<noteq> x) doc)) else None)"

text \<open>
  \<^verbatim>\<open>banner && banner.nextElementSibling === target\<close> for the first banner and the
  first summary container of the document.
\<close>

definition bannerBeforeTarget :: "node list \<Rightarrow> bool" where
  "bannerBeforeTarget doc =
     (case (positionOf Banner doc, positionOf Summary doc) of
        (Some i, Some j) \<Rightarrow> Suc i = j
      | _ \<Rightarrow> False)"

text \<open>\<^verbatim>\<open>target.insertAdjacentHTML('beforebegin', BANNER_HTML)\<close>.\<close>

definition insertBeforeTarget :: "node list \<Rightarrow> node list" where
  "insertBeforeTarget doc =
     takeWhile (\<lambda>n. n \<noteq> Summary) doc @ Banner # dropWhile (\<lambda>n. n \<noteq> Summary) doc"

datatype timer_kind = Interval | Timeout

datatype banner_callback = PollTick | ObserverCallback | DebounceCallback

datatype banner_warning = BannerMisplaced | MaxInitialChecks

text \<open>
  A record of a mutation, as far as the observer's callback looks at it: its type, and
  for the types other than \<^verbatim>\<open>childList\<close> whether its target passes the callback's
  test (the target matches the summary selector or is the banner standing before the
  summary; the parent of the changed text matches the summary selector).
\<close>

datatype mutation = ChildList | Attributes bool | CharacterData bool

fun relevant :: "mutation \<Rightarrow> bool" where
  "relevant ChildList = True"
| "relevant (Attributes b) = b"
| "relevant (CharacterData b) = b"

text \<open>
  The state of the banner script: location and document, the script's variables
  (\<^verbatim>\<open>initialCheckAttempt\<close>, \<^verbatim>\<open>initialCheckIntervalId\<close>, \<^verbatim>\<open>observer\<close> and
  \<^verbatim>\<open>window._bannerInsertDebounceTimer\<close>), the browser's table of live timers, the
  observers that are connected, and the warnings. \<open>entered\<close> lists the callbacks of
  the script that the browser has run, in order.
\<close>

record banner_state =
  bannerHref :: string
  doc :: "node list"
  initialCheckAttempt :: nat
  initialCheckIntervalId :: "nat option"
  observer :: "nat option"
  bannerInsertDebounceTimer :: "nat option"
  timers :: "(nat \<times> timer_kind) list"
  observing :: "nat list"
  bannerLastHandle :: nat
  bannerWarnings :: "banner_warning list"
  entered :: "banner_callback list"

definition insertBanner :: "banner_state \<Rightarrow> bool \<times> banner_state" where
  "insertBanner s =
     (if Summary \<notin> set (doc s) then (False, s)
      else if bannerBeforeTarget (doc s) then (True, s)
      else
        (let s' = s\<lparr>doc := insertBeforeTarget (doc s)\<rparr> in
         if bannerBeforeTarget (doc s') then (True, s')
         else (False, s'\<lparr>bannerWarnings := bannerWarnings s' @ [BannerMisplaced]\<rparr>)))"

text \<open>\<^verbatim>\<open>clearInterval\<close> and \<^verbatim>\<open>clearTimeout\<close> work on the one table of timers.\<close>

fun clearTimer :: "nat option \<Rightarrow> banner_state \<Rightarrow> banner_state" where
  "clearTimer None s = s"
| "clearTimer (Some h) s = s\<lparr>timers := filter (\<lambda>t. fst t \<noteq> h) (timers s)\<rparr>"

definition startTimer :: "timer_kind \<Rightarrow> banner_state \<Rightarrow> nat \<times> banner_state" where
  "startTimer k s =
     (let h = Suc (bannerLastHandle s) in
      (h, s\<lparr>timers := timers s @ [(h, k)], bannerLastHandle := h\<rparr>))"

fun disconnect :: "nat option \<Rightarrow> banner_state \<Rightarrow> banner_state" where
  "disconnect None s = s"
| "disconnect (Some ob) s = s\<lparr>observing := removeAll ob (observing s)\<rparr>"

definition initializeBannerObserver :: "banner_state \<Rightarrow> banner_state" where
  "initializeBannerObserver s =
     (let s1 = disconnect (observer s) s; ob = Suc (bannerLastHandle s1) in
      s1\<lparr>observer := Some ob, observing := observing s1 @ [ob], bannerLastHandle := ob\<rparr>)"

definition isTargetPage :: "banner_state \<Rightarrow> bool" where
  "isTargetPage s =
     (includesStr (bannerHref s) ''/reservation/'' \<and> includesStr (bannerHref s) ''/guests'')"

definition handleUrlChange :: "banner_state \<Rightarrow> banner_state" where
  "handleUrlChange s =
     (if isTargetPage s then
        (let s1 = (if truthy (initialCheckIntervalId s)
                   then (clearTimer (initialCheckIntervalId s) s)\<lparr>initialCheckIntervalId := None\<rparr>
                   else s);
             s2 = (if observer s1 \<noteq> None
                   then (disconnect (observer s1) s1)\<lparr>observer := None\<rparr>
                   else s1);
             (h, s3) = startTimer Interval (s2\<lparr>initialCheckAttempt := 0\<rparr>)
         in s3\<lparr>initialCheckIntervalId := Some h\<rparr>)
      else
        (let s1 = (if truthy (initialCheckIntervalId s)
                   then clearTimer (initialCheckIntervalId s) s else s);
             s2 = (if observer s1 \<noteq> None then disconnect (observer s1) s1 else s1)
         in s2\<lparr>initialCheckIntervalId := None, observer := None\<rparr>))"

text \<open>The callback of the interval that \<^verbatim>\<open>handleUrlChange\<close> starts.\<close>

definition pollTick :: "banner_state \<Rightarrow> banner_state" where
  "pollTick s0 =
     (let s = s0\<lparr>entered := entered s0 @ [PollTick]\<rparr>;
          (inserted, s1) = insertBanner s;
          s2 = (if inserted \<or> initialCheckAttempt s1 \<ge> 50 then
                  (let s' = (clearTimer (initialCheckIntervalId s1) s1)\<lparr>initialCheckIntervalId := None\<rparr> in
                   if initialCheckAttempt s' \<ge> 50
                   then s'\<lparr>bannerWarnings := bannerWarnings s' @ [MaxInitialChecks]\<rparr>
                   else initializeBannerObserver s')
                else s1)
      in s2\<lparr>initialCheckAttempt := Suc (initialCheckAttempt s2)\<rparr>)"

text \<open>The callback of the timeout that the observer's callback starts.\<close>

definition debounced :: "banner_state \<Rightarrow> banner_state" where
  "debounced s0 =
     (let s = s0\<lparr>entered := entered s0 @ [DebounceCallback]\<rparr> in
      if Banner \<notin> set (doc s) \<or> Summary \<notin> set (doc s) \<or> \<not> bannerBeforeTarget (doc s)
      then snd (insertBanner s) else s)"

definition observerCallback :: "mutation list \<Rightarrow> banner_state \<Rightarrow> banner_state" where
  "observerCallback ms s0 =
     (let s = s0\<lparr>entered := entered s0 @ [ObserverCallback]\<rparr> in
      if list_ex relevant ms then
        (let (h, s1) = startTimer Timeout (clearTimer (bannerInsertDebounceTimer s) s)
         in s1\<lparr>bannerInsertDebounceTimer := Some h\<rparr>)
      else s)"

text \<open>
  What can happen to the banner script: the host page changes its location and its
  document, a navigation signal runs \<^verbatim>\<open>handleUrlChange\<close>, the timer with a handle is
  due, or the browser delivers mutation records to an observer. A handle that is not in
  the table runs nothing; a timeout leaves the table when it runs; an observer that is
  not connected gets nothing.
\<close>

datatype banner_event =
    BannerHost string "node list"
  | BannerSignal
  | TimerDue nat
  | Mutations nat "mutation list"

fun bannerStep :: "banner_event \<Rightarrow> banner_state \<Rightarrow> banner_state" where
  "bannerStep (BannerHost u d) s = s\<lparr>bannerHref := u, doc := d\<rparr>"
| "bannerStep BannerSignal s = handleUrlChange s"
| "bannerStep (TimerDue h) s =
     (case map_of (timers s) h of
        None \<Rightarrow> s
      | Some Interval \<Rightarrow> pollTick s
      | Some Timeout \<Rightarrow> debounced (clearTimer (Some h) s))"
| "bannerStep (Mutations ob ms) s =
     (if ob \<in> set (observing s) then observerCallback ms s else s)"

fun bannerRun :: "banner_event list \<Rightarrow> banner_state \<Rightarrow> banner_state" where
  "bannerRun [] s = s"
| "bannerRun (e # es) s = bannerRun es (bannerStep e s)"

text \<open>The script as loaded: its last statement calls \<^verbatim>\<open>handleUrlChange\<close>.\<close>

definition bannerLoad :: "string \<Rightarrow> node list \<Rightarrow> banner_state" where
  "bannerLoad u d =
     handleUrlChange
       \<lparr>bannerHref = u, doc = d, initialCheckAttempt = 0, initialCheckIntervalId = None,
        observer = None, bannerInsertDebounceTimer = None, timers = [], observing = [],
        bannerLastHandle = 0, bannerWarnings = [], entered = []\<rparr>"

section \<open>The wrappers around the history functions\<close>

text \<open>
  Seven scripts replace \<^verbatim>\<open>history.pushState\<close>, five of them also
  \<^verbatim>\<open>history.replaceState\<close>, by a function that applies the function it found there
  and then starts a timeout of 50 ms for its own check. A call has a receiver and
  arguments. The browser's side is the session history (the entries and the index of
  the current one) and the timeouts started, with delay and callback, oldest first.
\<close>

record history_call =
  receiver :: nat
  arguments :: "string list"

datatype recheck =
    PurchaseCheck | SearchInit | PaymentCheck | BannerCheck | DepositCheck
  | RewriteRestart | SecurityCheck

record browser =
  entries :: "string list list"
  current :: nat
  scheduled :: "(nat \<times> recheck) list"

datatype jsval = Undefined | Defined string

type_synonym history_fn = "history_call \<Rightarrow> browser \<Rightarrow> jsval outcome \<times> browser"

text \<open>
  The browser's own functions. They throw when the receiver is not the history object
  (number 0 here) or when the browser refuses the arguments (a state that cannot be
  cloned, a URL of another origin), which \<open>refuses\<close> decides; otherwise they return
  \<^verbatim>\<open>undefined\<close>. \<^verbatim>\<open>pushState\<close> drops the entries after the current one and adds
  one; \<^verbatim>\<open>replaceState\<close> replaces the current one.
\<close>

definition nativePushState :: "(string list \<Rightarrow> bool) \<Rightarrow> history_fn" where
  "nativePushState refuses c b =
     (if receiver c \<noteq> 0 \<or> refuses (arguments c) then (Threw, b)
      else (Returned Undefined,
            b\<lparr>entries := take (Suc (current b)) (entries b) @ [arguments c],
              current := length (take (Suc (current b)) (entries b))\<rparr>))"

definition nativeReplaceState :: "(string list \<Rightarrow> bool) \<Rightarrow> history_fn" where
  "nativeReplaceState refuses c b =
     (if receiver c \<noteq> 0 \<or> refuses (arguments c) then (Threw, b)
      else (Returned Undefined, b\<lparr>entries := (entries b)[current b := arguments c]\<rparr>))"

text \<open>
  The wrapper of every script:
  \<^verbatim>\<open>function() { original.apply(this, arguments); setTimeout(check, 50); }\<close>.
  An exception of the original leaves the wrapper before the timeout is started; the
  wrapper has no \<^verbatim>\<open>return\<close> statement, so its value is \<^verbatim>\<open>undefined\<close>.
\<close>

definition wrapHistory :: "recheck \<Rightarrow> history_fn \<Rightarrow> history_fn" where
  "wrapHistory check original c b =
     (case original c b of
        (Threw, b') \<Rightarrow> (Threw, b')
      | (Returned v, b') \<Rightarrow> (Returned Undefined, b'\<lparr>scheduled := scheduled b' @ [(50, check)]\<rparr>))"

text \<open>The scripts load in the order of the file; each wraps what the one before left.\<close>

definition installAll :: "recheck list \<Rightarrow> history_fn \<Rightarrow> history_fn" where
  "installAll checks native = foldl (\<lambda>f check. wrapHistory check f) native checks"

definition pushStateChecks :: "recheck list" where
  "pushStateChecks =
     [PurchaseCheck, SearchInit, PaymentCheck, BannerCheck, DepositCheck, RewriteRestart,
      SecurityCheck]"

definition replaceStateChecks :: "recheck list" where
  "replaceStateChecks =
     [PurchaseCheck, BannerCheck, DepositCheck, RewriteRestart, SecurityCheck]"

definition pushState :: "(string list \<Rightarrow> bool) \<Rightarrow> history_fn" where
  "pushState refuses = installAll pushStateChecks (nativePushState refuses)"

definition replaceState :: "(string list \<Rightarrow> bool) \<Rightarrow> history_fn" where
  "replaceState refuses = installAll replaceStateChecks (nativeReplaceState refuses)"

section \<open>The deal badge\<close>

subsection \<open>JavaScript numbers\<close>

text \<open>
  \<^verbatim>\<open>buildDealBadge\<close> computes with JavaScript numbers, the binary floating-point
  numbers of 64 bits. The model takes a number as the rational it stands for and rounds
  the exact result of every division, multiplication and addition to the nearest number
  with a significand of 53 bits, a tie going to the even significand. \<open>expo x\<close> is
  the exponent \<open>e\<close> for which \<open>|x|\<close> lies between the power \<open>e\<close> of two and
  the next one, found from the lengths of numerator and denominator. Overflow and subnormal numbers are not modelled; the amounts of a
  badge stay far inside the normal range.
\<close>

definition expo :: "rat \<Rightarrow> int" where
  "expo x =
     (let (a, b) = quotient_of \<bar>x\<bar>; k = bitlen a - bitlen b
      in if 2 powi k \<le> \<bar>x\<bar> then k else k - 1)"

definition roundEven :: "rat \<Rightarrow> int" where
  "roundEven x =
     (let f = \<lfloor>x\<rfloor>; d = x - of_int f in
      if d < 1 / 2 then f else if 1 / 2 < d then f + 1 else if even f then f else f + 1)"

definition fl :: "rat \<Rightarrow> rat" where
  "fl x =
     (if x = 0 then 0
      else sgn x * of_int (roundEven (\<bar>x\<bar> * 2 powi (52 - expo x))) * 2 powi (expo x - 52))"

text \<open>
  \<^verbatim>\<open>x.toFixed(2)\<close>, as the number of hundredths it prints: the integer \<open>n\<close> for
  which \<open>n / 100\<close> is nearest to the exact value of \<open>x\<close>, the larger one of two.
\<close>

definition toFixed2 :: "rat \<Rightarrow> int" where
  "toFixed2 x = \<lfloor>100 * x + 1 / 2\<rfloor>"

text \<open>The unary \<^verbatim>\<open>+\<close> on such a string: the number nearest to the decimal.\<close>

definition fromCents :: "int \<Rightarrow> rat" where
  "fromCents c = fl (of_int c / 100)"

text \<open>\<^verbatim>\<open>a % b\<close> for \<open>a \<ge> 0\<close> and \<open>b > 0\<close>; the remainder is exact.\<close>

definition jsRem :: "rat \<Rightarrow> rat \<Rightarrow> rat" where
  "jsRem a b = a - b * of_int \<lfloor>a / b\<rfloor>"

subsection \<open>The badge\<close>

text \<open>\<^verbatim>\<open>const WEEK_N = +(WEEKLY / 7).toFixed(2)\<close> with \<^verbatim>\<open>WEEKLY = 299\<close>.\<close>

definition WEEK_N :: rat where
  "WEEK_N = fromCents (toFixed2 (fl (299 / 7)))"

text \<open>
  The three amounts that the badge shows, each as the number of cents of the text with
  two decimals that \<^verbatim>\<open>toFixed(2)\<close> made: the struck-through original price, the
  discounted total, and the amount due today.
\<close>

record badge =
  originalPrice :: int
  discountedPrice :: int
  dueToday :: int

definition buildDealBadge :: "rat \<Rightarrow> badge" where
  "buildDealBadge nights =
     (let rem0 = nights;
          t1 = fl (0 + fl (of_int \<lfloor>fl (rem0 / 30)\<rfloor> * 1099));
          rem1 = jsRem rem0 30;
          t2 = fl (t1 + fl (of_int \<lfloor>fl (rem1 / 7)\<rfloor> * 299));
          rem2 = jsRem rem1 7;
          t3 = fl (t2 + fl (rem2 * WEEK_N));
          discountedTotal = fromCents (toFixed2 t3);
          originalTotal = toFixed2 (fl (nights * 70));
          half = toFixed2 (fl (discountedTotal / 2))
      in \<lparr>originalPrice = originalTotal, discountedPrice = toFixed2 discountedTotal,
          dueToday = half\<rparr>)"

text \<open>The unit roundoff of the numbers: half the distance from 1 to the next number.\<close>

definition eps :: rat where
  "eps = 1 / 9007199254740992"

section \<open>Sessions and example pages\<close>

text \<open>
  A session of the purchase tracker is a stretch of events during which the location
  contains \<^verbatim>\<open>/confirmation\<close>: an event belongs to it unless it moves the host page
  to another location.
\<close>

definition inSession :: "event \<Rightarrow> bool" where
  "inSession e = (case e of Host p \<Rightarrow> isConfirmation p | Signal \<Rightarrow> True | Tick h \<Rightarrow> True)"

definition confirmationPage :: page where
  "confirmationPage =
     \<lparr>href = ''https://hotel.example/reservation/abc/confirmation'',
      beTextParagraphs = [''Thank you!'', ''Your reservation number is #AB-123.''],
      grandTotalText = Some ''USD 341.71'', cookie = ''_fbp=fb.1.2; _fbc=xyz'',
      userAgent = ''UA'', fbq = FbqCallable\<rparr>"

definition guestsPage :: page where
  "guestsPage =
     confirmationPage\<lparr>href := ''https://hotel.example/reservation/abc/guests'',
       beTextParagraphs := [], grandTotalText := None\<rparr>"

definition zeroTotalPage :: page where
  "zeroTotalPage = confirmationPage\<lparr>grandTotalText := Some ''USD 0.00''\<rparr>"

definition throwingPage :: page where
  "throwingPage = confirmationPage\<lparr>fbq := FbqThrowing\<rparr>"

definition loadingPage :: page where
  "loadingPage = confirmationPage\<lparr>beTextParagraphs := [], grandTotalText := None\<rparr>"

text \<open>A page on which the tracking logic finds nothing to report.\<close>

definition noTrackingData :: "page \<Rightarrow> bool" where
  "noTrackingData p =
     (fst (getReservationIdFromPageText p) = None \<or> fst (getTotalAmount p) = None \<or>
      fst (getTotalAmount p) = Some 0)"

text \<open>What \<^verbatim>\<open>checkPrice\<close> takes for "no price yet": no element, no match, or zero.\<close>

definition noPrice :: "string option \<Rightarrow> bool" where
  "noPrice el =
     (case el of
        None \<Rightarrow> True
      | Some t \<Rightarrow> (case matchAmount (trim t) of None \<Rightarrow> True | Some m \<Rightarrow> parseCents m = 0))"

definition noBodyPage :: payment_page where
  "noBodyPage =
     \<lparr>pathname = ''/reservation/abc/payment'',
      paymentHref = ''https://hotel.example/reservation/abc/payment'',
      documentBody = False, bookNowButton = False\<rparr>"

text \<open>
  For the banner script, an event keeps the location off the guests page unless it
  moves the host page there.
\<close>

definition offTarget :: "banner_event \<Rightarrow> bool" where
  "offTarget e =
     (case e of
        BannerHost u d \<Rightarrow> \<not> (includesStr u ''/reservation/'' \<and> includesStr u ''/guests'')
      | BannerSignal \<Rightarrow> True
      | TimerDue h \<Rightarrow> True
      | Mutations ob ms \<Rightarrow> True)"

text \<open>
  Two invariants of the banner script. \<open>owned\<close>: every live interval is the one in
  \<^verbatim>\<open>initialCheckIntervalId\<close>, every pending timeout the one in the debounce variable,
  every connected observer the one in \<^verbatim>\<open>observer\<close>, and handles are positive.
  \<open>released\<close>: off the guests page, with no observer connected and no timer live but
  the debounce timeout.
\<close>

definition owned :: "banner_state \<Rightarrow> bool" where
  "owned s =
     ((\<forall>t \<in> set (timers s). 0 < fst t \<and>
         (snd t = Interval \<longrightarrow> initialCheckIntervalId s = Some (fst t)) \<and>
         (snd t = Timeout \<longrightarrow> bannerInsertDebounceTimer s = Some (fst t))) \<and>
      (\<forall>ob \<in> set (observing s). observer s = Some ob))"

definition released :: "banner_state \<Rightarrow> bool" where
  "released s =
     (\<not> isTargetPage s \<and> observing s = [] \<and>
      list_all (\<lambda>t. snd t = Timeout \<and> bannerInsertDebounceTimer s = Some (fst t)) (timers s))"

definition guestsUrl :: string where
  "guestsUrl = ''https://hotel.example/reservation/abc/guests''"

definition paymentUrl :: string where
  "paymentUrl = ''https://hotel.example/reservation/abc/payment''"

text \<open>
  A visit of the guests page: the first poll inserts the banner and attaches the
  observer (handle 2); the visitor moves on to the payment page, whose document has the
  summary and no banner; the observer, still connected, sees the page change and starts
  the debounce timeout (handle 3). The handler has not run yet: the history wrapper
  delays it by 50 ms.
\<close>

definition guestsVisit :: banner_state where
  "guestsVisit =
     bannerRun [TimerDue 1, BannerHost paymentUrl [Other, Summary], Mutations 2 [ChildList]]
       (bannerLoad guestsUrl [Other, Summary])"

text \<open>A browser with one history entry, and a call that the browser accepts.\<close>

definition oneEntry :: browser where
  "oneEntry =
     \<lparr>entries = [[''null'', ''title'', ''/reservation/abc'']], current = 0, scheduled = []\<rparr>"

definition toGuests :: history_call where
  "toGuests = \<lparr>receiver = 0, arguments = [''null'', ''title'', ''/reservation/abc/guests'']\<rparr>"

section \<open>Properties of the purchase tracker\<close>

lemmas tracker_defs =
  isConfirmation_def confirmationPage_def fresh_def checkConfirmationPage_def
  setInterval_def intervalCallback_def executeTrackingLogic_def
  getReservationIdFromPageText_def getTotalAmount_def warn_def amountAt_def isDigit_def
  isIdChar_def isLetter_def parseCents_def digitsVal_def digitVal_def getCookie_def Let_def

lemma executeTrackingLogic_host: "host (snd (executeTrackingLogic s)) = host s"
  by (auto simp: executeTrackingLogic_def warn_def Let_def split: prod.splits option.splits)

lemma executeTrackingLogic_pixels:
  "(pixels (snd (executeTrackingLogic s)) = pixels s \<and>
      purchaseEventFired (snd (executeTrackingLogic s)) = purchaseEventFired s) \<or>
   (\<not> purchaseEventFired s \<and> purchaseEventFired (snd (executeTrackingLogic s)) \<and>
      (\<exists>px. pixels (snd (executeTrackingLogic s)) = pixels s @ [px]))"
  by (auto simp: executeTrackingLogic_def warn_def Let_def split: prod.splits option.splits)

lemma clearInterval_fields:
  "pixels (clearInterval x s) = pixels s"
  "purchaseEventFired (clearInterval x s) = purchaseEventFired s"
  "host (clearInterval x s) = host s"
  "fetches (clearInterval x s) = fetches s"
  by (cases x; simp)+

lemma intervalCallback_pixels:
  "host (intervalCallback s) = host s \<and>
   ((pixels (intervalCallback s) = pixels s \<and>
      purchaseEventFired (intervalCallback s) = purchaseEventFired s) \<or>
    (\<not> purchaseEventFired s \<and> purchaseEventFired (intervalCallback s) \<and>
      (\<exists>px. pixels (intervalCallback s) = pixels s @ [px])))"
  using executeTrackingLogic_pixels[of s] executeTrackingLogic_host[of s]
  by (cases "executeTrackingLogic s"; cases "fst (executeTrackingLogic s)")
     (auto simp: intervalCallback_def clearInterval_fields split: outcome.splits bool.splits)

lemma checkConfirmationPage_in_session:
  "isConfirmation (host s) \<Longrightarrow>
     host (checkConfirmationPage s) = host s \<and>
     pixels (checkConfirmationPage s) = pixels s \<and>
     purchaseEventFired (checkConfirmationPage s) = purchaseEventFired s"
  by (auto simp: checkConfirmationPage_def setInterval_def Let_def)

lemma step_in_session:
  assumes "isConfirmation (host s)" and "inSession e"
  shows "isConfirmation (host (step e s)) \<and>
   ((pixels (step e s) = pixels s \<and> purchaseEventFired (step e s) = purchaseEventFired s) \<or>
    (\<not> purchaseEventFired s \<and> purchaseEventFired (step e s) \<and>
      (\<exists>px. pixels (step e s) = pixels s @ [px])))"
proof (cases e)
  case (Host p)
  with assms show ?thesis by (simp add: inSession_def)
next
  case Signal
  with assms checkConfirmationPage_in_session[of s] show ?thesis by simp
next
  case (Tick h)
  with assms intervalCallback_pixels[of s] show ?thesis by auto
qed

lemma run_in_session:
  "isConfirmation (host s) \<Longrightarrow> list_all inSession evs \<Longrightarrow>
     (purchaseEventFired s \<and> purchaseEventFired (run evs s) \<and> pixels (run evs s) = pixels s) \<or>
     (\<not> purchaseEventFired s \<and>
        ((pixels (run evs s) = pixels s \<and> \<not> purchaseEventFired (run evs s)) \<or>
         (purchaseEventFired (run evs s) \<and> (\<exists>px. pixels (run evs s) = pixels s @ [px]))))"
proof (induction evs arbitrary: s)
  case Nil
  then show ?case by simp
next
  case (Cons e es)
  from Cons.prems have c: "isConfirmation (host (step e s))" and es: "list_all inSession es"
    and st: "(pixels (step e s) = pixels s \<and>
               purchaseEventFired (step e s) = purchaseEventFired s) \<or>
             (\<not> purchaseEventFired s \<and> purchaseEventFired (step e s) \<and>
               (\<exists>px. pixels (step e s) = pixels s @ [px]))"
    using step_in_session[of s e] by auto
  from Cons.IH[OF c es] st show ?case by auto
qed

text \<open>
  C1, as the script has it. Within a session the \<^verbatim>\<open>Purchase\<close> event of the pixel is
  sent at most once: whatever timer ticks, navigation signals and changes of the page
  (that stay on a confirmation location) happen, the list of pixel events either stays
  as it was or grows by one event, and then the flag \<^verbatim>\<open>__purchaseEventFired\<close> is set;
  once the flag is set, the list does not grow and the flag stays set.
\<close>

theorem purchase_pixel_once_per_session:
  assumes "isConfirmation (host s)" and "list_all inSession evs"
  shows "(purchaseEventFired s \<longrightarrow>
            pixels (run evs s) = pixels s \<and> purchaseEventFired (run evs s)) \<and>
         (pixels (run evs s) = pixels s \<or>
            (\<exists>px. pixels (run evs s) = pixels s @ [px] \<and> purchaseEventFired (run evs s)))"
  using run_in_session[OF assms] by auto

theorem purchase_pixel_once_per_session_witness:
  "isConfirmation (host (run [Signal, Tick 1] (fresh confirmationPage))) \<and>
   list_all inSession [Host confirmationPage, Signal, Tick 2, Tick 2] \<and>
   purchaseEventFired (run [Signal, Tick 1] (fresh confirmationPage)) \<and>
   length (pixels (run [Signal, Tick 1] (fresh confirmationPage))) = 1 \<and>
   pixels (run [Host confirmationPage, Signal, Tick 2, Tick 2]
             (run [Signal, Tick 1] (fresh confirmationPage))) =
     pixels (run [Signal, Tick 1] (fresh confirmationPage))"
proof -
  have h: "isConfirmation (host (run [Signal, Tick 1] (fresh confirmationPage)))"
    by (simp add: tracker_defs inSession_def)
  have e: "list_all inSession [Host confirmationPage, Signal, Tick 2, Tick 2]"
    by (simp add: tracker_defs inSession_def)
  have f: "purchaseEventFired (run [Signal, Tick 1] (fresh confirmationPage))"
    by (simp add: tracker_defs inSession_def)
  have n: "length (pixels (run [Signal, Tick 1] (fresh confirmationPage))) = 1"
    by (simp add: tracker_defs inSession_def)
  from purchase_pixel_once_per_session[OF h e] f h e n show ?thesis by blast
qed

text \<open>
  C1 as stated fails: the flag guards the pixel only. In one session, after the first
  run of the tracking logic has succeeded and set the flag, a further navigation signal
  (the location unchanged) starts a new interval, whose tick runs the tracking logic
  again; it returns true again and posts the purchase to the webhook a second time.
\<close>

theorem tracking_logic_runs_twice_in_session:
  "isConfirmation (host (fresh confirmationPage)) \<and>
   list_all inSession [Signal, Tick 1, Signal, Tick 2] \<and>
   purchaseEventFired (run [Signal, Tick 1] (fresh confirmationPage)) \<and>
   length (fetches (run [Signal, Tick 1] (fresh confirmationPage))) = 1 \<and>
   fst (executeTrackingLogic (run [Signal, Tick 1, Signal] (fresh confirmationPage))) =
     Returned True \<and>
   length (fetches (run [Signal, Tick 1, Signal, Tick 2] (fresh confirmationPage))) = 2"
  by (simp add: tracker_defs inSession_def)

text \<open>
  C4 at the failing input. The page is tracked (signal, tick), then the visitor leaves
  for the guests page and the handler runs: the interval variable is null by then, so
  the branch that deletes \<^verbatim>\<open>__purchaseEventFired\<close> is not taken and the flag is still
  set. Back on the confirmation page the tracking logic runs again and sends no second
  pixel event. (Leaving while the interval is still live does clear the flag.)
\<close>

theorem fired_flag_survives_leaving:
  "\<not> isConfirmation guestsPage \<and>
   purchaseEventFired (run [Signal, Tick 1, Host guestsPage, Signal] (fresh confirmationPage)) \<and>
   length (pixels (run [Signal, Tick 1, Host guestsPage, Signal, Host confirmationPage,
                        Signal, Tick 2] (fresh confirmationPage))) = 1 \<and>
   length (fetches (run [Signal, Tick 1, Host guestsPage, Signal, Host confirmationPage,
                         Signal, Tick 2] (fresh confirmationPage))) = 2"
  by (simp add: tracker_defs guestsPage_def)

text \<open>
  C5. \<^verbatim>\<open>checkConfirmationPage\<close> is idempotent in every state: a second call with the
  location unchanged leaves the state of the first call as it is. In particular it
  starts no second interval, and neither call sends anything.
\<close>

theorem checkConfirmationPage_idempotent:
  "checkConfirmationPage (checkConfirmationPage s) = checkConfirmationPage s \<and>
   intervals (checkConfirmationPage (checkConfirmationPage s)) =
     intervals (checkConfirmationPage s) \<and>
   fetches (checkConfirmationPage (checkConfirmationPage s)) = fetches s \<and>
   pixels (checkConfirmationPage (checkConfirmationPage s)) = pixels s"
  by (cases "purchaseEventCheckInterval s")
     (auto simp: checkConfirmationPage_def setInterval_def Let_def)

text \<open>
  C7. Loading the script returns normally on every page, also one whose pixel library
  throws, and runs no tracking logic on the way. When the tracking logic throws in a
  tick of a live interval, the exception is reported and nothing else is lost: the
  interval stays in the timer table, the interval variable keeps its handle, and the
  next tick runs the callback again.
\<close>

theorem failures_contained:
  "fst (loadScript p) = Returned () \<and>
   fetches (snd (loadScript p)) = [] \<and> pixels (snd (loadScript p)) = [] \<and>
   uncaught (snd (loadScript p)) = 0 \<and>
   (h \<in> set (intervals s) \<and> fst (executeTrackingLogic s) = Threw \<longrightarrow>
      intervals (step (Tick h) s) = intervals s \<and>
      purchaseEventCheckInterval (step (Tick h) s) = purchaseEventCheckInterval s \<and>
      uncaught (step (Tick h) s) = Suc (uncaught s) \<and>
      step (Tick h) (step (Tick h) s) = intervalCallback (step (Tick h) s))"
proof -
  have load: "fst (loadScript p) = Returned () \<and> fetches (snd (loadScript p)) = [] \<and>
      pixels (snd (loadScript p)) = [] \<and> uncaught (snd (loadScript p)) = 0"
    by (simp add: loadScript_def checkConfirmationPage_def setInterval_def fresh_def Let_def)
  have tick: "intervals (step (Tick h) s) = intervals s \<and>
      purchaseEventCheckInterval (step (Tick h) s) = purchaseEventCheckInterval s \<and>
      uncaught (step (Tick h) s) = Suc (uncaught s) \<and>
      step (Tick h) (step (Tick h) s) = intervalCallback (step (Tick h) s)"
    if live: "h \<in> set (intervals s)" and threw: "fst (executeTrackingLogic s) = Threw"
  proof -
    obtain s' where ex: "executeTrackingLogic s = (Threw, s')"
      using threw by (cases "executeTrackingLogic s") auto
    have kept: "intervals s' = intervals s \<and>
        purchaseEventCheckInterval s' = purchaseEventCheckInterval s \<and> uncaught s' = uncaught s"
      using ex
      by (auto simp: executeTrackingLogic_def warn_def Let_def
               split: prod.splits option.splits if_splits)
    show ?thesis using live ex kept by (simp add: intervalCallback_def)
  qed
  from load tick show ?thesis by blast
qed

theorem failures_contained_witness:
  "1 \<in> set (intervals (run [Signal] (fresh throwingPage))) \<and>
   fst (executeTrackingLogic (run [Signal] (fresh throwingPage))) = Threw \<and>
   intervals (step (Tick 1) (run [Signal] (fresh throwingPage))) = [1] \<and>
   uncaught (step (Tick 1) (run [Signal] (fresh throwingPage))) = 1 \<and>
   fst (loadScript throwingPage) = Returned ()"
proof -
  have a: "1 \<in> set (intervals (run [Signal] (fresh throwingPage)))"
    by (simp add: tracker_defs throwingPage_def)
  have b: "fst (executeTrackingLogic (run [Signal] (fresh throwingPage))) = Threw"
    by (simp add: tracker_defs throwingPage_def)
  have c: "intervals (run [Signal] (fresh throwingPage)) = [1]"
    by (simp add: tracker_defs throwingPage_def)
  have d: "uncaught (run [Signal] (fresh throwingPage)) = 0"
    by (simp add: tracker_defs throwingPage_def)
  from failures_contained[of throwingPage 1 "run [Signal] (fresh throwingPage)"] a b c d
  show ?thesis by simp
qed

text \<open>
  C9. When the page shows no reservation number, or no amount, or the amount zero,
  \<^verbatim>\<open>executeTrackingLogic\<close> returns false and changes nothing but the warnings: no
  request goes to the webhook, no pixel event is sent, the flag and the timers are as
  before.
\<close>

theorem no_tracking_without_data:
  assumes "fst (getReservationIdFromPageText (host s)) = None \<or>
           fst (getTotalAmount (host s)) = None \<or>
           fst (getTotalAmount (host s)) = Some 0"
  shows "fst (executeTrackingLogic s) = Returned False \<and>
         fetches (snd (executeTrackingLogic s)) = fetches s \<and>
         pixels (snd (executeTrackingLogic s)) = pixels s \<and>
         purchaseEventFired (snd (executeTrackingLogic s)) = purchaseEventFired s \<and>
         (\<exists>ws. snd (executeTrackingLogic s) = s\<lparr>warnings := warnings s @ ws\<rparr>)"
  using assms
  by (auto simp: executeTrackingLogic_def warn_def Let_def split: prod.splits option.splits)

theorem no_tracking_without_data_witness:
  "fst (getTotalAmount (host (fresh zeroTotalPage))) = Some 0 \<and>
   fst (getReservationIdFromPageText (host (fresh zeroTotalPage))) = Some ''AB-123'' \<and>
   fst (executeTrackingLogic (fresh zeroTotalPage)) = Returned False \<and>
   fetches (snd (executeTrackingLogic (fresh zeroTotalPage))) = [] \<and>
   pixels (snd (executeTrackingLogic (fresh zeroTotalPage))) = [] \<and>
   \<not> purchaseEventFired (snd (executeTrackingLogic (fresh zeroTotalPage)))"
proof -
  have z: "fst (getTotalAmount (host (fresh zeroTotalPage))) = Some 0"
    by (simp add: tracker_defs zeroTotalPage_def)
  have r: "fst (getReservationIdFromPageText (host (fresh zeroTotalPage))) = Some ''AB-123''"
    by (simp add: tracker_defs zeroTotalPage_def)
  have i: "fetches (fresh zeroTotalPage) = [] \<and> pixels (fresh zeroTotalPage) = [] \<and>
      \<not> purchaseEventFired (fresh zeroTotalPage)"
    by (simp add: fresh_def)
  from no_tracking_without_data[of "fresh zeroTotalPage"] z r i show ?thesis by simp
qed

section \<open>Properties of the polls\<close>

lemma paymentRun_append: "paymentRun (xs @ ys) s = paymentRun ys (paymentRun xs s)"
  by (induction xs arbitrary: s) auto

lemma paymentRun_idle: "timeouts s = [] \<Longrightarrow> paymentRun (replicate n (Fire 0)) s = s"
  by (induction n) (auto simp: fire_def)

lemma over_budget: "\<not> n \<le> (20::nat) \<Longrightarrow> \<exists>m. n = 20 + (1 + m)"
  by presburger

subsection \<open>The retries of \<^verbatim>\<open>tryObserveBody\<close>\<close>

lemma body_retry:
  "\<not> documentBody (paymentPage s) \<Longrightarrow> timeouts s = [(d, TryObserveBody k)] \<Longrightarrow> k < 20 \<Longrightarrow>
     fire 0 s = s\<lparr>timeouts := [(200, TryObserveBody (Suc k))]\<rparr>"
  by (simp add: fire_def tryObserveBody_def setTimeout_def)

lemma body_chain:
  "\<not> documentBody (paymentPage s) \<Longrightarrow> timeouts s = [(d, TryObserveBody k)] \<Longrightarrow>
   k + n \<le> 20 \<Longrightarrow>
     paymentRun (replicate n (Fire 0)) s =
       s\<lparr>timeouts := [(if n = 0 then d else 200, TryObserveBody (k + n))]\<rparr>"
proof (induction n arbitrary: s d k)
  case 0
  then show ?case by simp
next
  case (Suc n)
  have st: "fire 0 s = s\<lparr>timeouts := [(200, TryObserveBody (Suc k))]\<rparr>"
    using Suc.prems by (intro body_retry) auto
  have "paymentRun (replicate n (Fire 0)) (fire 0 s) =
      (fire 0 s)\<lparr>timeouts := [(if n = 0 then 200 else 200, TryObserveBody (Suc k + n))]\<rparr>"
    using Suc.prems by (intro Suc.IH) (auto simp: st)
  then show ?case by (simp add: st)
qed

lemma body_exhausted:
  "\<not> documentBody (paymentPage s) \<Longrightarrow> timeouts s = [(d, TryObserveBody 20)] \<Longrightarrow>
     fire 0 s = s\<lparr>timeouts := [], paymentWarnings := paymentWarnings s @ [BodyNotFound]\<rparr>"
  by (simp add: fire_def tryObserveBody_def setTimeout_def)

lemma body_poll:
  assumes "\<not> documentBody (paymentPage s)" and "timeouts s = []"
    and "\<not> paymentErrorObserverInitialized s"
  shows "paymentRun (replicate n (Fire 0)) (trackPaymentError s) =
     (if n \<le> 20 then s\<lparr>timeouts := [(if n = 0 then 100 else 200, TryObserveBody n)]\<rparr>
      else s\<lparr>paymentWarnings := paymentWarnings s @ [BodyNotFound]\<rparr>)"
proof -
  let ?t = "trackPaymentError s"
  have t: "?t = s\<lparr>timeouts := [(100, TryObserveBody 0)]\<rparr>"
    using assms by (simp add: trackPaymentError_def setTimeout_def)
  have ch: "paymentRun (replicate m (Fire 0)) ?t =
      s\<lparr>timeouts := [(if m = 0 then 100 else 200, TryObserveBody m)]\<rparr>" if "m \<le> 20" for m
    using body_chain[of ?t 100 0 m] assms that by (simp add: t)
  show ?thesis
  proof (cases "n \<le> 20")
    case True
    then show ?thesis using ch by simp
  next
    case False
    then obtain m where n: "n = 20 + (1 + m)" using over_budget by blast
    have "paymentRun (replicate n (Fire 0)) ?t =
        paymentRun (replicate m (Fire 0)) (fire 0 (paymentRun (replicate 20 (Fire 0)) ?t))"
      unfolding n replicate_add paymentRun_append by simp
    also have "paymentRun (replicate 20 (Fire 0)) ?t =
        s\<lparr>timeouts := [(200, TryObserveBody 20)]\<rparr>"
      using ch[of 20] by simp
    also have "fire 0 (s\<lparr>timeouts := [(200, TryObserveBody 20)]\<rparr>) =
        s\<lparr>timeouts := [], paymentWarnings := paymentWarnings s @ [BodyNotFound]\<rparr>"
      using assms by (simp add: body_exhausted)
    also have "paymentRun (replicate m (Fire 0)) \<dots> =
        s\<lparr>timeouts := [], paymentWarnings := paymentWarnings s @ [BodyNotFound]\<rparr>"
      by (simp add: paymentRun_idle)
    also have "\<dots> = s\<lparr>paymentWarnings := paymentWarnings s @ [BodyNotFound]\<rparr>"
      using assms(2) by simp
    finally show ?thesis using False by simp
  qed
qed

subsection \<open>The retries of \<^verbatim>\<open>checkButton\<close>\<close>

lemma button_retry:
  "\<not> bookNowButton (paymentPage s) \<Longrightarrow> timeouts s = [(d, CheckButton k)] \<Longrightarrow> k < 20 \<Longrightarrow>
     fire 0 s = s\<lparr>timeouts := [(200, CheckButton (Suc k))]\<rparr>"
  by (simp add: fire_def checkButton_def setTimeout_def)

lemma button_chain:
  "\<not> bookNowButton (paymentPage s) \<Longrightarrow> timeouts s = [(d, CheckButton k)] \<Longrightarrow>
   k + n \<le> 20 \<Longrightarrow>
     paymentRun (replicate n (Fire 0)) s =
       s\<lparr>timeouts := [(if n = 0 then d else 200, CheckButton (k + n))]\<rparr>"
proof (induction n arbitrary: s d k)
  case 0
  then show ?case by simp
next
  case (Suc n)
  have st: "fire 0 s = s\<lparr>timeouts := [(200, CheckButton (Suc k))]\<rparr>"
    using Suc.prems by (intro button_retry) auto
  have "paymentRun (replicate n (Fire 0)) (fire 0 s) =
      (fire 0 s)\<lparr>timeouts := [(if n = 0 then 200 else 200, CheckButton (Suc k + n))]\<rparr>"
    using Suc.prems by (intro Suc.IH) (auto simp: st)
  then show ?case by (simp add: st)
qed

lemma button_exhausted:
  "\<not> bookNowButton (paymentPage s) \<Longrightarrow> timeouts s = [(d, CheckButton 20)] \<Longrightarrow>
     fire 0 s =
       s\<lparr>timeouts := [], paymentWarnings := paymentWarnings s @ [BookNowButtonNotFound]\<rparr>"
  by (simp add: fire_def checkButton_def setTimeout_def)

lemma button_poll:
  assumes "\<not> bookNowButton (paymentPage s)" and "timeouts s = []"
    and "\<not> paymentSubmitClickInitialized s"
  shows "paymentRun (replicate n (Fire 0)) (trackPaymentSubmitClick s) =
     (if n \<le> 20
      then s\<lparr>paymentSubmitClickInitialized := True,
             timeouts := [(if n = 0 then 500 else 200, CheckButton n)]\<rparr>
      else s\<lparr>paymentSubmitClickInitialized := True,
             paymentWarnings := paymentWarnings s @ [BookNowButtonNotFound]\<rparr>)"
proof -
  let ?t = "trackPaymentSubmitClick s"
  have t: "?t = s\<lparr>paymentSubmitClickInitialized := True, timeouts := [(500, CheckButton 0)]\<rparr>"
    using assms by (simp add: trackPaymentSubmitClick_def setTimeout_def)
  have ch: "paymentRun (replicate m (Fire 0)) ?t =
      s\<lparr>paymentSubmitClickInitialized := True,
        timeouts := [(if m = 0 then 500 else 200, CheckButton m)]\<rparr>" if "m \<le> 20" for m
    using button_chain[of ?t 500 0 m] assms that by (simp add: t)
  show ?thesis
  proof (cases "n \<le> 20")
    case True
    then show ?thesis using ch by simp
  next
    case False
    then obtain m where n: "n = 20 + (1 + m)" using over_budget by blast
    have "paymentRun (replicate n (Fire 0)) ?t =
        paymentRun (replicate m (Fire 0)) (fire 0 (paymentRun (replicate 20 (Fire 0)) ?t))"
      unfolding n replicate_add paymentRun_append by simp
    also have "paymentRun (replicate 20 (Fire 0)) ?t =
        s\<lparr>paymentSubmitClickInitialized := True, timeouts := [(200, CheckButton 20)]\<rparr>"
      using ch[of 20] by simp
    also have "fire 0 (s\<lparr>paymentSubmitClickInitialized := True,
                         timeouts := [(200, CheckButton 20)]\<rparr>) =
        s\<lparr>paymentSubmitClickInitialized := True, timeouts := [],
          paymentWarnings := paymentWarnings s @ [BookNowButtonNotFound]\<rparr>"
      using assms by (simp add: button_exhausted)
    also have "paymentRun (replicate m (Fire 0)) \<dots> =
        s\<lparr>paymentSubmitClickInitialized := True, timeouts := [],
          paymentWarnings := paymentWarnings s @ [BookNowButtonNotFound]\<rparr>"
      by (simp add: paymentRun_idle)
    also have "\<dots> = s\<lparr>paymentSubmitClickInitialized := True,
                      paymentWarnings := paymentWarnings s @ [BookNowButtonNotFound]\<rparr>"
      using assms(2) by simp
    finally show ?thesis using False by simp
  qed
qed

subsection \<open>The polls without a budget\<close>

lemma pollPrice_none:
  "list_all noPrice obs \<Longrightarrow> pendingDelay p = Some d \<Longrightarrow> resolved p = None \<Longrightarrow>
     pollPrice obs p =
       p\<lparr>attempts := attempts p + length obs,
         pendingDelay := Some (if obs = [] then d else 200)\<rparr>"
proof (induction obs arbitrary: p d)
  case Nil
  then show ?case by simp
next
  case (Cons el els)
  have st: "priceTimeout el p = p\<lparr>attempts := Suc (attempts p), pendingDelay := Some 200\<rparr>"
    using Cons.prems
    by (auto simp: priceTimeout_def checkPrice_def noPrice_def Let_def split: option.splits)
  show ?case using Cons.prems Cons.IH[of "priceTimeout el p" 200] by (simp add: st)
qed

lemma pollPrice_getPriceValue:
  "list_all noPrice obs \<Longrightarrow>
     pollPrice obs getPriceValue =
       \<lparr>attempts = length obs, pendingDelay = Some (if obs = [] then 500 else 200),
        resolved = None\<rparr>"
  using pollPrice_none[of obs getPriceValue 500] by (simp add: getPriceValue_def)

lemma intervalCallback_no_data:
  "noTrackingData (host s) \<Longrightarrow> \<exists>ws. intervalCallback s = s\<lparr>warnings := warnings s @ ws\<rparr>"
  by (auto simp: noTrackingData_def intervalCallback_def executeTrackingLogic_def warn_def
        Let_def split: prod.splits option.splits)

lemma tick_no_data:
  "noTrackingData (host s) \<Longrightarrow> \<exists>ws. step (Tick h) s = s\<lparr>warnings := warnings s @ ws\<rparr>"
proof (cases "h \<in> set (intervals s)")
  case True
  assume "noTrackingData (host s)"
  from intervalCallback_no_data[OF this] True show ?thesis by simp
next
  case False
  have "s = s\<lparr>warnings := warnings s @ []\<rparr>" by simp
  with False show ?thesis by (metis step.simps(3))
qed

lemma ticks_no_data:
  "noTrackingData (host s) \<Longrightarrow>
     \<exists>ws. run (replicate n (Tick h)) s = s\<lparr>warnings := warnings s @ ws\<rparr>"
proof (induction n arbitrary: s)
  case 0
  have "s = s\<lparr>warnings := warnings s @ []\<rparr>" by simp
  then show ?case by (metis replicate_0 run.simps(1))
next
  case (Suc n)
  define s1 where "s1 = step (Tick h) s"
  obtain ws where st: "s1 = s\<lparr>warnings := warnings s @ ws\<rparr>"
    using tick_no_data[OF Suc.prems, of h] unfolding s1_def by blast
  have "noTrackingData (host s1)" using Suc.prems by (simp add: st)
  from Suc.IH[OF this] obtain ws' where
    r: "run (replicate n (Tick h)) s1 = s1\<lparr>warnings := warnings s1 @ ws'\<rparr>" by blast
  have "run (replicate (Suc n) (Tick h)) s = run (replicate n (Tick h)) s1"
    by (simp add: s1_def)
  also have "\<dots> = s\<lparr>warnings := warnings s @ (ws @ ws')\<rparr>"
    unfolding r by (simp add: st)
  finally show ?case by blast
qed

text \<open>
  C2, as the scripts have it. The poll of \<^verbatim>\<open>trackPaymentSubmitClick\<close> has a budget:
  while the button is missing it checks once after 500 ms and then every 200 ms, twenty
  times more; the check after the twentieth retry logs one warning and starts no
  timeout, and nothing runs after it. The poll of \<^verbatim>\<open>getPriceValue\<close> and the
  interval of \<^verbatim>\<open>checkConfirmationPage\<close> have none: while no price is found, every
  check of \<^verbatim>\<open>getPriceValue\<close> starts the next timeout, whatever their number; while
  the page has nothing to track, every tick leaves the interval in place, and neither
  logs a warning for running out of attempts.
\<close>

theorem polling_budgets:
  assumes "\<not> bookNowButton (paymentPage s)" and "timeouts s = []"
    and "\<not> paymentSubmitClickInitialized s"
    and "list_all noPrice obs"
    and "noTrackingData (host t)"
  shows "paymentRun (replicate n (Fire 0)) (trackPaymentSubmitClick s) =
           (if n \<le> 20
            then s\<lparr>paymentSubmitClickInitialized := True,
                   timeouts := [(if n = 0 then 500 else 200, CheckButton n)]\<rparr>
            else s\<lparr>paymentSubmitClickInitialized := True,
                   paymentWarnings := paymentWarnings s @ [BookNowButtonNotFound]\<rparr>) \<and>
         pollPrice obs getPriceValue =
           \<lparr>attempts = length obs, pendingDelay = Some (if obs = [] then 500 else 200),
            resolved = None\<rparr> \<and>
         intervals (run (replicate n (Tick h)) t) = intervals t \<and>
         purchaseEventCheckInterval (run (replicate n (Tick h)) t) =
           purchaseEventCheckInterval t \<and>
         fetches (run (replicate n (Tick h)) t) = fetches t"
proof -
  obtain ws where "run (replicate n (Tick h)) t = t\<lparr>warnings := warnings t @ ws\<rparr>"
    using ticks_no_data[OF assms(5)] by blast
  then have "intervals (run (replicate n (Tick h)) t) = intervals t \<and>
      purchaseEventCheckInterval (run (replicate n (Tick h)) t) = purchaseEventCheckInterval t \<and>
      fetches (run (replicate n (Tick h)) t) = fetches t"
    by simp
  with button_poll[OF assms(1-3)] pollPrice_getPriceValue[OF assms(4)] show ?thesis by simp
qed

theorem polling_budgets_witness:
  "\<not> bookNowButton (paymentPage (paymentFresh noBodyPage)) \<and>
   timeouts (paymentFresh noBodyPage) = [] \<and>
   \<not> paymentSubmitClickInitialized (paymentFresh noBodyPage) \<and>
   list_all noPrice [None, Some ''USD 0.00'', Some ''Loading'', None] \<and>
   noTrackingData (host (run [Signal] (fresh loadingPage))) \<and>
   paymentWarnings (paymentRun (replicate 21 (Fire 0))
      (trackPaymentSubmitClick (paymentFresh noBodyPage))) = [BookNowButtonNotFound] \<and>
   timeouts (paymentRun (replicate 21 (Fire 0))
      (trackPaymentSubmitClick (paymentFresh noBodyPage))) = [] \<and>
   pollPrice [None, Some ''USD 0.00'', Some ''Loading'', None] getPriceValue =
     \<lparr>attempts = 4, pendingDelay = Some 200, resolved = None\<rparr> \<and>
   intervals (run (replicate 21 (Tick 1)) (run [Signal] (fresh loadingPage))) = [1]"
proof -
  have a: "\<not> bookNowButton (paymentPage (paymentFresh noBodyPage))"
    by (simp add: paymentFresh_def noBodyPage_def)
  have b: "timeouts (paymentFresh noBodyPage) = []"
    and c: "\<not> paymentSubmitClickInitialized (paymentFresh noBodyPage)"
    and w: "paymentWarnings (paymentFresh noBodyPage) = []"
    by (simp_all add: paymentFresh_def)
  have d: "list_all noPrice [None, Some ''USD 0.00'', Some ''Loading'', None]"
    by (simp add: noPrice_def trim_def amountAt_def isDigit_def parseCents_def digitsVal_def
          digitVal_def Let_def)
  have e: "noTrackingData (host (run [Signal] (fresh loadingPage)))"
    by (simp add: noTrackingData_def tracker_defs loadingPage_def)
  have i: "intervals (run [Signal] (fresh loadingPage)) = [1]"
    by (simp add: tracker_defs loadingPage_def)
  from polling_budgets[where n = 21 and h = 1, OF a b c d e] a b c d e w i
  show ?thesis by simp
qed

text \<open>
  C2 as stated fails for the two polls without a budget: no number of attempts ends
  the poll of \<^verbatim>\<open>getPriceValue\<close> while no price is found, and none ends the interval
  of \<^verbatim>\<open>checkConfirmationPage\<close> on a page with nothing to track. After 301 checks,
  more than any budget in the file, the next timeout of \<^verbatim>\<open>getPriceValue\<close> is
  pending.
\<close>

theorem polls_without_budget:
  "\<not> (\<exists>N. \<forall>obs. N \<le> length obs \<and> list_all noPrice obs \<longrightarrow>
          pendingDelay (pollPrice obs getPriceValue) = None) \<and>
   \<not> (\<exists>N. \<forall>n. N \<le> n \<longrightarrow>
          intervals (run (replicate n (Tick 1)) (run [Signal] (fresh loadingPage))) = []) \<and>
   pollPrice (replicate 301 None) getPriceValue =
     \<lparr>attempts = 301, pendingDelay = Some 200, resolved = None\<rparr>"
proof -
  have none: "list_all noPrice (replicate k None)" for k
    by (simp add: list_all_iff noPrice_def)
  have p: "pendingDelay (pollPrice (replicate k None) getPriceValue) \<noteq> None" for k
    using pollPrice_getPriceValue[OF none[of k]] by simp
  have 1: "\<not> (\<exists>N. \<forall>obs. N \<le> length obs \<and> list_all noPrice obs \<longrightarrow>
          pendingDelay (pollPrice obs getPriceValue) = None)"
  proof
    assume "\<exists>N. \<forall>obs. N \<le> length obs \<and> list_all noPrice obs \<longrightarrow>
          pendingDelay (pollPrice obs getPriceValue) = None"
    then obtain N where "\<forall>obs. N \<le> length obs \<and> list_all noPrice obs \<longrightarrow>
          pendingDelay (pollPrice obs getPriceValue) = None" by blast
    then have "pendingDelay (pollPrice (replicate N None) getPriceValue) = None"
      using none[of N] by simp
    with p[of N] show False by simp
  qed
  have e: "noTrackingData (host (run [Signal] (fresh loadingPage)))"
    by (simp add: noTrackingData_def tracker_defs loadingPage_def)
  have i: "intervals (run [Signal] (fresh loadingPage)) = [1]"
    by (simp add: tracker_defs loadingPage_def)
  have live: "intervals (run (replicate k (Tick 1)) (run [Signal] (fresh loadingPage))) = [1]" for k
    using ticks_no_data[OF e, of k 1] i by auto
  have 2: "\<not> (\<exists>N. \<forall>n. N \<le> n \<longrightarrow>
          intervals (run (replicate n (Tick 1)) (run [Signal] (fresh loadingPage))) = [])"
  proof
    assume "\<exists>N. \<forall>n. N \<le> n \<longrightarrow>
          intervals (run (replicate n (Tick 1)) (run [Signal] (fresh loadingPage))) = []"
    then obtain N where "\<forall>n. N \<le> n \<longrightarrow>
          intervals (run (replicate n (Tick 1)) (run [Signal] (fresh loadingPage))) = []" by blast
    then have "intervals (run (replicate N (Tick 1)) (run [Signal] (fresh loadingPage))) = []"
      by simp
    with live[of N] show False by simp
  qed
  have 3: "pollPrice (replicate 301 None) getPriceValue =
     \<lparr>attempts = 301, pendingDelay = Some 200, resolved = None\<rparr>"
    using pollPrice_getPriceValue[OF none[of 301]] by simp
  from 1 2 3 show ?thesis by blast
qed

lemma observer_after_flag_step:
  "(paymentErrorObserverInitialized s \<longrightarrow> 0 < bodyObservers s) \<Longrightarrow>
   (paymentErrorObserverInitialized (paymentStep e s) \<longrightarrow> 0 < bodyObservers (paymentStep e s))"
proof (cases e)
  case (PaymentHost p)
  assume "paymentErrorObserverInitialized s \<longrightarrow> 0 < bodyObservers s"
  with PaymentHost show ?thesis by simp
next
  case PaymentSignal
  assume "paymentErrorObserverInitialized s \<longrightarrow> 0 < bodyObservers s"
  with PaymentSignal show ?thesis
    by (auto simp: checkForTrackingEvents_def trackPaymentError_def trackPaymentSubmitClick_def
          setTimeout_def Let_def)
next
  case (Fire i)
  assume "paymentErrorObserverInitialized s \<longrightarrow> 0 < bodyObservers s"
  with Fire show ?thesis
    by (cases "snd (timeouts s ! i)")
       (auto simp: fire_def checkButton_def tryObserveBody_def setTimeout_def)
qed

lemma observer_after_flag_run:
  "(paymentErrorObserverInitialized s \<longrightarrow> 0 < bodyObservers s) \<Longrightarrow>
   (paymentErrorObserverInitialized (paymentRun evs s) \<longrightarrow> 0 < bodyObservers (paymentRun evs s))"
proof (induction evs arbitrary: s)
  case Nil
  then show ?case by simp
next
  case (Cons e es)
  from Cons.IH[OF observer_after_flag_step[OF Cons.prems, of e]] show ?case by simp
qed

text \<open>
  C6. While \<^verbatim>\<open>document.body\<close> is missing, \<^verbatim>\<open>trackPaymentError\<close> tries to attach
  its observer once after 100 ms and then every 200 ms, twenty times more, setting
  neither the flag nor an observer; the check after the twentieth retry logs one
  warning and gives up. Cadence and budget are those of the poll for the button. When
  a check finds the body, it attaches the observer and sets the flag; in every run of
  the script, the flag is set only when an observer is attached.
\<close>

theorem observer_attach_retry:
  assumes "\<not> documentBody (paymentPage s)" and "timeouts s = []"
    and "\<not> paymentErrorObserverInitialized s"
  shows "paymentRun (replicate n (Fire 0)) (trackPaymentError s) =
           (if n \<le> 20 then s\<lparr>timeouts := [(if n = 0 then 100 else 200, TryObserveBody n)]\<rparr>
            else s\<lparr>paymentWarnings := paymentWarnings s @ [BodyNotFound]\<rparr>) \<and>
         (\<not> bookNowButton (paymentPage s) \<and> \<not> paymentSubmitClickInitialized s \<longrightarrow>
            paymentRun (replicate n (Fire 0)) (trackPaymentSubmitClick s) =
              (if n \<le> 20
               then s\<lparr>paymentSubmitClickInitialized := True,
                      timeouts := [(if n = 0 then 500 else 200, CheckButton n)]\<rparr>
               else s\<lparr>paymentSubmitClickInitialized := True,
                      paymentWarnings := paymentWarnings s @ [BookNowButtonNotFound]\<rparr>)) \<and>
         (documentBody (paymentPage s') \<longrightarrow>
            tryObserveBody k s' =
              s'\<lparr>bodyObservers := Suc (bodyObservers s'),
                 paymentErrorObserverInitialized := True\<rparr>) \<and>
         (paymentErrorObserverInitialized (paymentRun evs (paymentLoad p)) \<longrightarrow>
            0 < bodyObservers (paymentRun evs (paymentLoad p)))"
proof -
  have "paymentErrorObserverInitialized (paymentLoad p) \<longrightarrow> 0 < bodyObservers (paymentLoad p)"
    by (simp add: paymentLoad_def paymentFresh_def checkForTrackingEvents_def
          trackPaymentError_def trackPaymentSubmitClick_def setTimeout_def Let_def)
  from observer_after_flag_run[OF this, of evs] body_poll[OF assms, of n]
    button_poll[OF _ assms(2), of n]
  show ?thesis by (simp add: tryObserveBody_def)
qed

theorem observer_attach_retry_witness:
  "\<not> documentBody (paymentPage (paymentFresh noBodyPage)) \<and>
   timeouts (paymentFresh noBodyPage) = [] \<and>
   \<not> paymentErrorObserverInitialized (paymentFresh noBodyPage) \<and>
   paymentRun (replicate 20 (Fire 0)) (trackPaymentError (paymentFresh noBodyPage)) =
     (paymentFresh noBodyPage)\<lparr>timeouts := [(200, TryObserveBody 20)]\<rparr> \<and>
   paymentRun (replicate 21 (Fire 0)) (trackPaymentError (paymentFresh noBodyPage)) =
     (paymentFresh noBodyPage)\<lparr>paymentWarnings := [BodyNotFound]\<rparr> \<and>
   paymentErrorObserverInitialized
     (paymentRun [PaymentHost (noBodyPage\<lparr>documentBody := True\<rparr>), Fire 1]
        (paymentLoad noBodyPage)) \<and>
   0 < bodyObservers
     (paymentRun [PaymentHost (noBodyPage\<lparr>documentBody := True\<rparr>), Fire 1]
        (paymentLoad noBodyPage))"
proof -
  have a: "\<not> documentBody (paymentPage (paymentFresh noBodyPage))"
    by (simp add: paymentFresh_def noBodyPage_def)
  have b: "timeouts (paymentFresh noBodyPage) = []"
    and c: "\<not> paymentErrorObserverInitialized (paymentFresh noBodyPage)"
    and w: "paymentWarnings (paymentFresh noBodyPage) = []"
    by (simp_all add: paymentFresh_def)
  have f: "paymentErrorObserverInitialized
     (paymentRun [PaymentHost (noBodyPage\<lparr>documentBody := True\<rparr>), Fire 1]
        (paymentLoad noBodyPage))"
    by (simp add: paymentLoad_def paymentFresh_def noBodyPage_def checkForTrackingEvents_def
          trackPaymentError_def trackPaymentSubmitClick_def setTimeout_def fire_def
          checkButton_def tryObserveBody_def Let_def)
  from observer_attach_retry[where n = 20, OF a b c]
    observer_attach_retry[where n = 21, OF a b c]
    observer_attach_retry[where p = noBodyPage and
      evs = "[PaymentHost (noBodyPage\<lparr>documentBody := True\<rparr>), Fire 1]", OF a b c]
    a b c w f
  show ?thesis by simp
qed

section \<open>Properties of the banner script\<close>

lemma kind_neq: "(k \<noteq> Interval) = (k = Timeout)" "(k \<noteq> Timeout) = (k = Interval)"
  by (cases k; simp)+

lemma removeAll_Nil_iff: "(removeAll a xs = []) = (\<forall>x \<in> set xs. a = x)"
  by (induction xs) auto

lemma insertBanner_frame:
  "timers (snd (insertBanner s)) = timers s" "observing (snd (insertBanner s)) = observing s"
  "initialCheckIntervalId (snd (insertBanner s)) = initialCheckIntervalId s"
  "observer (snd (insertBanner s)) = observer s"
  "bannerInsertDebounceTimer (snd (insertBanner s)) = bannerInsertDebounceTimer s"
  "entered (snd (insertBanner s)) = entered s"
  "bannerHref (snd (insertBanner s)) = bannerHref s"
  "initialCheckAttempt (snd (insertBanner s)) = initialCheckAttempt s"
  by (simp_all add: insertBanner_def Let_def)

lemma owned_handleUrlChange: "owned s \<Longrightarrow> owned (handleUrlChange s)"
  by (cases "initialCheckIntervalId s"; cases "observer s")
     (auto simp: owned_def handleUrlChange_def startTimer_def Let_def removeAll_Nil_iff)

lemma owned_pollTick: "owned s \<Longrightarrow> owned (pollTick s)"
  by (cases "initialCheckIntervalId s"; cases "observer s"; cases "insertBanner (s\<lparr>entered := entered s @ [PollTick]\<rparr>)")
     (use insertBanner_frame[of "s\<lparr>entered := entered s @ [PollTick]\<rparr>"] in
      \<open>auto simp: owned_def pollTick_def initializeBannerObserver_def Let_def list_all_iff
           split: timer_kind.splits\<close>)

lemma owned_debounced: "owned s \<Longrightarrow> owned (debounced s)"
  using insertBanner_frame[of "s\<lparr>entered := entered s @ [DebounceCallback]\<rparr>"]
  by (auto simp: owned_def debounced_def Let_def list_all_iff split: timer_kind.splits)

lemma owned_clearTimer: "owned s \<Longrightarrow> owned (clearTimer x s)"
  by (cases x) (auto simp: owned_def list_all_iff split: timer_kind.splits)

lemma owned_observerCallback: "owned s \<Longrightarrow> owned (observerCallback ms s)"
  by (cases "bannerInsertDebounceTimer s")
     (auto simp: owned_def observerCallback_def startTimer_def Let_def list_all_iff
           split: timer_kind.splits)

lemma owned_step: "owned s \<Longrightarrow> owned (bannerStep e s)"
proof (cases e)
  case (BannerHost u d)
  assume "owned s"
  then show ?thesis using BannerHost by (simp add: owned_def list_all_iff)
next
  case BannerSignal
  assume "owned s"
  then show ?thesis using BannerSignal by (simp add: owned_handleUrlChange)
next
  case (TimerDue h)
  assume "owned s"
  then show ?thesis using TimerDue
    by (auto simp: owned_pollTick owned_debounced owned_clearTimer simp del: clearTimer.simps split: option.splits timer_kind.splits)
next
  case (Mutations ob ms)
  assume "owned s"
  then show ?thesis using Mutations by (simp add: owned_observerCallback)
qed

lemma owned_run: "owned s \<Longrightarrow> owned (bannerRun evs s)"
  by (induction evs arbitrary: s) (auto simp: owned_step)

lemma owned_load: "owned (bannerLoad u d)"
  unfolding bannerLoad_def by (rule owned_handleUrlChange) (simp add: owned_def)

lemma release_released:
  "owned s \<Longrightarrow> \<not> isTargetPage s \<Longrightarrow> released (handleUrlChange s) \<and>
     initialCheckIntervalId (handleUrlChange s) = None \<and> observer (handleUrlChange s) = None
     \<and> entered (handleUrlChange s) = entered s"
  by (cases "initialCheckIntervalId s"; cases "observer s")
     (auto simp: owned_def released_def handleUrlChange_def isTargetPage_def Let_def list_all_iff
           removeAll_Nil_iff kind_neq)

lemma released_step:
  assumes "released s" "offTarget e"
  shows "released (bannerStep e s) \<and>
     (entered (bannerStep e s) = entered s \<and> (timers s = [] \<longrightarrow> timers (bannerStep e s) = []) \<or>
      entered (bannerStep e s) = entered s @ [DebounceCallback] \<and> timers s \<noteq> [] \<and> timers (bannerStep e s) = [])"
proof (cases e)
  case (BannerHost u d)
  then show ?thesis using assms by (simp add: released_def offTarget_def isTargetPage_def)
next
  case BannerSignal
  then show ?thesis using assms 
    by (cases "initialCheckIntervalId s"; cases "observer s")
       (auto simp: released_def handleUrlChange_def isTargetPage_def Let_def list_all_iff)
next
  case (TimerDue h)
  show ?thesis
  proof (cases "map_of (timers s) h")
    case None
    then show ?thesis using TimerDue assms by simp
  next
    case (Some k)
    then have mem: "(h, k) \<in> set (timers s)" by (rule map_of_SomeD)
    with assms have k: "k = Timeout" and d: "bannerInsertDebounceTimer s = Some h"
      by (auto simp: released_def list_all_iff)
    have all: "\<forall>t \<in> set (timers s). fst t = h" using assms d by (auto simp: released_def list_all_iff)
    then have empty: "filter (\<lambda>t. fst t \<noteq> h) (timers s) = []" by (auto simp: filter_empty_conv)
    have ne: "timers s \<noteq> []" using mem by auto
    show ?thesis using TimerDue Some k assms empty ne
      insertBanner_frame[of "s\<lparr>timers := [], entered := entered s @ [DebounceCallback]\<rparr>"]
      by (auto simp: released_def debounced_def isTargetPage_def Let_def)
  qed
next
  case (Mutations ob ms)
  then show ?thesis using assms by (simp add: released_def)
qed

lemma released_run_idle:
  "released s \<Longrightarrow> timers s = [] \<Longrightarrow> list_all offTarget evs \<Longrightarrow> entered (bannerRun evs s) = entered s"
proof (induction evs arbitrary: s)
  case Nil
  then show ?case by simp
next
  case (Cons e es)
  from released_step[of s e] Cons.prems
  have "released (bannerStep e s)" "timers (bannerStep e s) = []" "entered (bannerStep e s) = entered s"
    by auto
  with Cons show ?case by simp
qed

lemma released_run:
  "released s \<Longrightarrow> list_all offTarget evs \<Longrightarrow>
     entered (bannerRun evs s) = entered s \<or> entered (bannerRun evs s) = entered s @ [DebounceCallback]"
proof (induction evs arbitrary: s)
  case Nil
  then show ?case by simp
next
  case (Cons e es)
  from released_step[of s e] Cons.prems
  have r: "released (bannerStep e s)" and
    c: "entered (bannerStep e s) = entered s \<or>
      entered (bannerStep e s) = entered s @ [DebounceCallback] \<and> timers (bannerStep e s) = []"
    by auto
  from c show ?case
  proof
    assume "entered (bannerStep e s) = entered s"
    with Cons.IH[OF r] Cons.prems show ?thesis by simp
  next
    assume a: "entered (bannerStep e s) = entered s @ [DebounceCallback] \<and> timers (bannerStep e s) = []"
    with released_run_idle[OF r, of es] Cons.prems show ?thesis by simp
  qed
qed

lemmas banner_defs =
  guestsVisit_def guestsUrl_def paymentUrl_def bannerLoad_def handleUrlChange_def
  isTargetPage_def startTimer_def pollTick_def insertBanner_def bannerBeforeTarget_def
  positionOf_def insertBeforeTarget_def initializeBannerObserver_def observerCallback_def
  debounced_def offTarget_def Let_def

text \<open>
  C3, as the banner script has it. When \<^verbatim>\<open>handleUrlChange\<close> runs off the guests
  page, in any state the script can reach, it leaves no interval in the timer table and
  no observer connected, and clears both variables. From then on, while the location
  stays off the guests page, no tick of the poll and no callback of the observer runs,
  whatever timers fall due and whatever mutations and signals arrive. The timeout that
  the observer's callback started before is not cancelled: it may still run, once.
\<close>

theorem release_stops_poll_and_observer:
  assumes "\<not> isTargetPage (bannerRun before (bannerLoad u d))"
    and "list_all offTarget after"
  shows "list_all (\<lambda>t. snd t = Timeout)
           (timers (handleUrlChange (bannerRun before (bannerLoad u d)))) \<and>
         observing (handleUrlChange (bannerRun before (bannerLoad u d))) = [] \<and>
         initialCheckIntervalId (handleUrlChange (bannerRun before (bannerLoad u d))) = None \<and>
         observer (handleUrlChange (bannerRun before (bannerLoad u d))) = None \<and>
         (entered (bannerRun after (handleUrlChange (bannerRun before (bannerLoad u d)))) =
            entered (bannerRun before (bannerLoad u d)) \<or>
          entered (bannerRun after (handleUrlChange (bannerRun before (bannerLoad u d)))) =
            entered (bannerRun before (bannerLoad u d)) @ [DebounceCallback])"
proof -
  let ?s = "bannerRun before (bannerLoad u d)"
  have o: "owned ?s" by (rule owned_run[OF owned_load])
  from release_released[OF o assms(1)]
  have r: "released (handleUrlChange ?s)"
    and v: "initialCheckIntervalId (handleUrlChange ?s) = None"
           "observer (handleUrlChange ?s) = None"
    and e: "entered (handleUrlChange ?s) = entered ?s"
    by auto
  from r have t: "list_all (\<lambda>t. snd t = Timeout) (timers (handleUrlChange ?s))"
    and ob: "observing (handleUrlChange ?s) = []"
    by (auto simp: released_def list_all_iff)
  from released_run[OF r assms(2)] e t ob v show ?thesis by simp
qed

theorem release_stops_poll_and_observer_witness:
  "\<not> isTargetPage (bannerRun
       [TimerDue 1, BannerHost paymentUrl [Other, Summary], Mutations 2 [ChildList]]
       (bannerLoad guestsUrl [Other, Summary])) \<and>
   list_all offTarget [TimerDue 1, Mutations 2 [ChildList], BannerSignal, TimerDue 1] \<and>
   timers (handleUrlChange (bannerRun
       [TimerDue 1, BannerHost paymentUrl [Other, Summary], Mutations 2 [ChildList]]
       (bannerLoad guestsUrl [Other, Summary]))) = [(3, Timeout)] \<and>
   observing (handleUrlChange (bannerRun
       [TimerDue 1, BannerHost paymentUrl [Other, Summary], Mutations 2 [ChildList]]
       (bannerLoad guestsUrl [Other, Summary]))) = [] \<and>
   entered (bannerRun [TimerDue 1, Mutations 2 [ChildList], BannerSignal, TimerDue 1]
     (handleUrlChange (bannerRun
       [TimerDue 1, BannerHost paymentUrl [Other, Summary], Mutations 2 [ChildList]]
       (bannerLoad guestsUrl [Other, Summary])))) = [PollTick, ObserverCallback]"
proof -
  let ?before = "[TimerDue 1, BannerHost paymentUrl [Other, Summary], Mutations 2 [ChildList]]"
  let ?after = "[TimerDue 1, Mutations 2 [ChildList], BannerSignal, TimerDue 1]"
  have a: "\<not> isTargetPage (bannerRun ?before (bannerLoad guestsUrl [Other, Summary]))"
    by (simp add: banner_defs)
  have b: "list_all offTarget ?after"
    by (simp add: offTarget_def)
  have c: "timers (handleUrlChange (bannerRun ?before (bannerLoad guestsUrl [Other, Summary])))
      = [(3, Timeout)]"
    by (simp add: banner_defs)
  have d: "entered (bannerRun ?after
      (handleUrlChange (bannerRun ?before (bannerLoad guestsUrl [Other, Summary]))))
      = [PollTick, ObserverCallback]"
    by (simp add: banner_defs)
  from release_stops_poll_and_observer[OF a b] a b c d show ?thesis by simp
qed

text \<open>
  C3 as stated fails for the debounce timeout. The visitor has moved on from the
  guests page and the observer's callback has started the timeout (handle 3); the
  handler releases the session; then the timeout falls due, its callback runs, and it
  inserts the banner into the payment page.
\<close>

theorem debounce_runs_after_release:
  "\<not> isTargetPage guestsVisit \<and>
   entered (handleUrlChange guestsVisit) = [PollTick, ObserverCallback] \<and>
   timers (handleUrlChange guestsVisit) = [(3, Timeout)] \<and>
   entered (bannerStep (TimerDue 3) (handleUrlChange guestsVisit)) =
     [PollTick, ObserverCallback, DebounceCallback] \<and>
   doc (bannerStep (TimerDue 3) (handleUrlChange guestsVisit)) = [Other, Banner, Summary]"
  by (simp add: banner_defs)

section \<open>Properties of the history wrappers\<close>

lemma installAll_snoc: "installAll (checks @ [x]) f = wrapHistory x (installAll checks f)"
  by (simp add: installAll_def)

lemma installAll_effect:
  "installAll checks f c b =
     (case f c b of
        (Threw, b') \<Rightarrow> (Threw, b')
      | (Returned v, b') \<Rightarrow>
          (Returned (if checks = [] then v else Undefined),
           b'\<lparr>scheduled := scheduled b' @ map (Pair 50) checks\<rparr>))"
proof (induction checks rule: rev_induct)
  case Nil
  show ?case by (simp add: installAll_def split: prod.splits outcome.splits)
next
  case (snoc x xs)
  show ?case unfolding installAll_snoc
    by (simp add: wrapHistory_def snoc split: prod.splits outcome.splits)
qed

text \<open>
  C8. A wrapper passes receiver and arguments on to the function it wraps, unchanged,
  and starts its timeout after that function has returned: the session history after
  the wrapper is the one the wrapped function leaves, the timeout comes after whatever
  that function scheduled, and an exception of the wrapped function passes through with
  no timeout started. The wrapper itself returns \<^verbatim>\<open>undefined\<close>. For the functions
  as installed (all wrappers of the file around the browser's own function) this means:
  same outcome, same history, and one timeout of 50 ms per script.
\<close>

theorem history_wrappers_delegate:
  "fst (wrapHistory check original c b) =
     (case fst (original c b) of Threw \<Rightarrow> Threw | Returned v \<Rightarrow> Returned Undefined) \<and>
   entries (snd (wrapHistory check original c b)) = entries (snd (original c b)) \<and>
   current (snd (wrapHistory check original c b)) = current (snd (original c b)) \<and>
   scheduled (snd (wrapHistory check original c b)) =
     scheduled (snd (original c b)) @
       (if fst (original c b) = Threw then [] else [(50, check)]) \<and>
   fst (pushState refuses c b) = fst (nativePushState refuses c b) \<and>
   entries (snd (pushState refuses c b)) = entries (snd (nativePushState refuses c b)) \<and>
   current (snd (pushState refuses c b)) = current (snd (nativePushState refuses c b)) \<and>
   scheduled (snd (pushState refuses c b)) =
     scheduled b @ (if fst (nativePushState refuses c b) = Threw then []
                    else map (Pair 50) pushStateChecks) \<and>
   fst (replaceState refuses c b) = fst (nativeReplaceState refuses c b) \<and>
   entries (snd (replaceState refuses c b)) = entries (snd (nativeReplaceState refuses c b)) \<and>
   current (snd (replaceState refuses c b)) = current (snd (nativeReplaceState refuses c b)) \<and>
   scheduled (snd (replaceState refuses c b)) =
     scheduled b @ (if fst (nativeReplaceState refuses c b) = Threw then []
                    else map (Pair 50) replaceStateChecks)"
proof -
  have w: "fst (wrapHistory check original c b) =
     (case fst (original c b) of Threw \<Rightarrow> Threw | Returned v \<Rightarrow> Returned Undefined) \<and>
   entries (snd (wrapHistory check original c b)) = entries (snd (original c b)) \<and>
   current (snd (wrapHistory check original c b)) = current (snd (original c b)) \<and>
   scheduled (snd (wrapHistory check original c b)) =
     scheduled (snd (original c b)) @
       (if fst (original c b) = Threw then [] else [(50, check)])"
    by (cases "original c b"; cases "fst (original c b)") (auto simp: wrapHistory_def)
  have p: "fst (pushState refuses c b) = fst (nativePushState refuses c b) \<and>
   entries (snd (pushState refuses c b)) = entries (snd (nativePushState refuses c b)) \<and>
   current (snd (pushState refuses c b)) = current (snd (nativePushState refuses c b)) \<and>
   scheduled (snd (pushState refuses c b)) =
     scheduled b @ (if fst (nativePushState refuses c b) = Threw then []
                    else map (Pair 50) pushStateChecks)"
    by (simp add: pushState_def installAll_effect nativePushState_def pushStateChecks_def)
  have r: "fst (replaceState refuses c b) = fst (nativeReplaceState refuses c b) \<and>
   entries (snd (replaceState refuses c b)) = entries (snd (nativeReplaceState refuses c b)) \<and>
   current (snd (replaceState refuses c b)) = current (snd (nativeReplaceState refuses c b)) \<and>
   scheduled (snd (replaceState refuses c b)) =
     scheduled b @ (if fst (nativeReplaceState refuses c b) = Threw then []
                    else map (Pair 50) replaceStateChecks)"
    by (simp add: replaceState_def installAll_effect nativeReplaceState_def
          replaceStateChecks_def)
  from w p r show ?thesis by blast
qed

theorem history_wrappers_delegate_witness:
  "fst (nativePushState (\<lambda>a. a = []) toGuests oneEntry) = Returned Undefined \<and>
   fst (pushState (\<lambda>a. a = []) toGuests oneEntry) = Returned Undefined \<and>
   entries (snd (pushState (\<lambda>a. a = []) toGuests oneEntry)) =
     [[''null'', ''title'', ''/reservation/abc''],
      [''null'', ''title'', ''/reservation/abc/guests'']] \<and>
   current (snd (pushState (\<lambda>a. a = []) toGuests oneEntry)) = 1 \<and>
   scheduled (snd (pushState (\<lambda>a. a = []) toGuests oneEntry)) =
     [(50, PurchaseCheck), (50, SearchInit), (50, PaymentCheck), (50, BannerCheck),
      (50, DepositCheck), (50, RewriteRestart), (50, SecurityCheck)] \<and>
   fst (pushState (\<lambda>a. a = []) (toGuests\<lparr>receiver := 1\<rparr>) oneEntry) = Threw \<and>
   snd (nativePushState (\<lambda>a. a = []) (toGuests\<lparr>receiver := 1\<rparr>) oneEntry) = oneEntry \<and>
   scheduled (snd (pushState (\<lambda>a. a = []) (toGuests\<lparr>receiver := 1\<rparr>) oneEntry)) = []"
proof -
  have n: "nativePushState (\<lambda>a. a = []) toGuests oneEntry =
      (Returned Undefined,
       \<lparr>entries = [[''null'', ''title'', ''/reservation/abc''],
                   [''null'', ''title'', ''/reservation/abc/guests'']],
        current = 1, scheduled = []\<rparr>)"
    by (simp add: nativePushState_def toGuests_def oneEntry_def)
  have t: "nativePushState (\<lambda>a. a = []) (toGuests\<lparr>receiver := 1\<rparr>) oneEntry = (Threw, oneEntry)"
    by (simp add: nativePushState_def toGuests_def)
  have s: "scheduled oneEntry = []"
    by (simp add: oneEntry_def)
  from history_wrappers_delegate[where refuses = "\<lambda>a. a = []" and c = toGuests and b = oneEntry]
    history_wrappers_delegate[where refuses = "\<lambda>a. a = []" and
      c = "toGuests\<lparr>receiver := 1\<rparr>" and b = oneEntry]
    n t s
  show ?thesis by (simp add: pushStateChecks_def)
qed

section \<open>Properties of the deal badge\<close>

lemma quot_pos:
  assumes "0 < (y::rat)" "quotient_of y = (a, b)"
  shows "0 < a \<and> 0 < b \<and> y = of_int a / of_int b"
proof -
  have b: "0 < b" using assms(2) by (rule quotient_of_denom_pos)
  have y: "y = of_int a / of_int b" using assms(2) by (rule quotient_of_div)
  have "0 < a"
  proof (rule ccontr)
    assume "\<not> 0 < a"
    then have "of_int a \<le> (0::rat)" by simp
    then have "of_int a / of_int b \<le> (0::rat)" using b by (simp add: divide_nonpos_pos)
    with y assms(1) show False by simp
  qed
  with b y show ?thesis by simp
qed

lemma bitlen_powi:
  assumes "0 < (a::int)"
  shows "2 powi (bitlen a - 1) \<le> (of_int a :: rat) \<and> (of_int a :: rat) < 2 powi (bitlen a)"
proof -
  from bitlen_bounds[OF assms] have lo: "2 ^ nat (bitlen a - 1) \<le> a" and hi: "a < 2 ^ nat (bitlen a)"
    by auto
  have pos: "0 < bitlen a"
    using assms bitlen_nonneg[of a] bitlen_eq_zero_iff[of a] by linarith
  have "(of_int (2 ^ nat (bitlen a - 1)) :: rat) \<le> of_int a" using lo by (simp only: of_int_le_iff)
  moreover have "(of_int a :: rat) < of_int (2 ^ nat (bitlen a))" using hi by (simp only: of_int_less_iff)
  ultimately show ?thesis using pos by (simp add: power_int_def)
qed

lemma expo_bounds:
  assumes "0 < (y::rat)"
  shows "2 powi (expo y) \<le> y \<and> y < 2 powi (expo y + 1)"
proof -
  obtain a b where q: "quotient_of y = (a, b)" by (cases "quotient_of y")
  from quot_pos[OF assms q] have a: "0 < a" and b: "0 < b" and y: "y = of_int a / of_int b" by auto
  let ?k = "bitlen a - bitlen b"
  from bitlen_powi[OF a] have a1: "2 powi (bitlen a - 1) \<le> (of_int a :: rat)"
    and a2: "(of_int a :: rat) < 2 powi (bitlen a)" by auto
  from bitlen_powi[OF b] have b1: "2 powi (bitlen b - 1) \<le> (of_int b :: rat)"
    and b2: "(of_int b :: rat) < 2 powi (bitlen b)" by auto
  have bpos: "(0::rat) < of_int b" using b by simp
  have lo: "2 powi (?k - 1) \<le> y"
  proof -
    have "2 powi (?k - 1) * (of_int b :: rat) \<le> 2 powi (?k - 1) * 2 powi (bitlen b)"
      using b2 by (intro mult_left_mono) auto
    also have "\<dots> = 2 powi (bitlen a - 1)"
      by (simp flip: power_int_add) 
    also have "\<dots> \<le> of_int a" by (rule a1)
    finally show ?thesis unfolding y using bpos by (simp add: pos_le_divide_eq)
  qed
  have hi: "y < 2 powi (?k + 1)"
  proof -
    have "(of_int a :: rat) < 2 powi (bitlen a)" by (rule a2)
    also have "\<dots> = 2 powi (?k + 1) * 2 powi (bitlen b - 1)"
      by (simp flip: power_int_add)
    also have "\<dots> \<le> 2 powi (?k + 1) * of_int b"
      using b1 by (intro mult_left_mono) auto
    finally show ?thesis unfolding y using bpos by (simp add: pos_divide_less_eq)
  qed
  have e: "expo y = (if 2 powi ?k \<le> y then ?k else ?k - 1)"
    using assms q by (simp add: expo_def Let_def)
  show ?thesis
  proof (cases "2 powi ?k \<le> y")
    case True
    with e hi show ?thesis by simp
  next
    case False
    with e lo show ?thesis by simp
  qed
qed

lemma roundEven_err: "\<bar>of_int (roundEven x) - x\<bar> \<le> 1 / 2"
proof -
  have a: "of_int \<lfloor>x\<rfloor> \<le> x" and b: "x < of_int \<lfloor>x\<rfloor> + 1" by linarith+
  consider "roundEven x = \<lfloor>x\<rfloor>" "x - of_int \<lfloor>x\<rfloor> \<le> 1 / 2"
    | "roundEven x = \<lfloor>x\<rfloor> + 1" "1 / 2 \<le> x - of_int \<lfloor>x\<rfloor>"
    by (cases "x - of_int \<lfloor>x\<rfloor> < 1 / 2"; cases "1 / 2 < x - of_int \<lfloor>x\<rfloor>";
        cases "even \<lfloor>x\<rfloor>")
       (auto simp: roundEven_def Let_def)
  then show ?thesis
  proof cases
    case 1
    then show ?thesis using a by simp
  next
    case 2
    then show ?thesis using b by simp
  qed
qed

lemma roundEven_int [simp]: "roundEven (of_int m) = m"
  by (simp add: roundEven_def)

lemma fl_err:
  assumes "0 < x"
  shows "\<bar>fl x - x\<bar> \<le> x * eps"
proof -
  let ?e = "expo x"
  let ?s = "(2::rat) powi (52 - ?e)"
  let ?R = "of_int (roundEven (x * ?s)) :: rat"
  from expo_bounds[OF assms] have lo: "2 powi ?e \<le> x" by simp
  have s: "0 < ?s" by (simp add: zero_less_power_int)
  have inv: "(2::rat) powi (?e - 52) * ?s = 1" by (simp flip: power_int_add)
  have f: "fl x = ?R * 2 powi (?e - 52)" using assms by (simp add: fl_def)
  have "fl x - x = (?R - x * ?s) * 2 powi (?e - 52)"
    unfolding f using inv by (simp add: algebra_simps)
  then have "\<bar>fl x - x\<bar> = \<bar>?R - x * ?s\<bar> * 2 powi (?e - 52)"
    by (simp add: abs_mult zero_less_power_int)
  also have "\<dots> \<le> 1 / 2 * 2 powi (?e - 52)"
    using roundEven_err[of "x * ?s"] by (intro mult_right_mono) (auto simp: zero_less_power_int less_imp_le)
  also have "\<dots> = 2 powi ?e * eps"
  proof -
    have "(2::rat) powi ?e = 2 powi (?e - 52) * 4503599627370496"
      using power_int_add[of "2::rat" "?e - 52" 52] by simp
    then show ?thesis by (simp add: eps_def)
  qed
  also have "\<dots> \<le> x * eps" using lo by (intro mult_right_mono) (auto simp: eps_def)
  finally show ?thesis .
qed

lemma fl_int:
  assumes "0 \<le> m" "m < 2 ^ 53"
  shows "fl (of_int m) = of_int m"
proof (cases "m = 0")
  case True
  then show ?thesis by (simp add: fl_def)
next
  case False
  with assms have pos: "0 < (of_int m :: rat)" by simp
  let ?x = "of_int m :: rat"
  let ?e = "expo ?x"
  from expo_bounds[OF pos] have lo: "2 powi ?e \<le> ?x" by simp
  have "?x < of_int (2 ^ 53)" using assms(2) by (simp only: of_int_less_iff)
  also have "(of_int (2 ^ 53) :: rat) = 2 powi 53" by simp
  finally have "(2::rat) powi ?e < 2 powi 53" using lo by simp
  then have e: "?e < 53"
    using power_int_increasing[of 53 ?e "2::rat"] by (cases "?e < 53") auto
  define j where "j = nat (52 - ?e)"
  have s: "(2::rat) powi (52 - ?e) = of_int (2 ^ j)" using e by (simp add: power_int_def j_def)
  have inv: "(2::rat) powi (52 - ?e) * 2 powi (?e - 52) = 1" by (simp flip: power_int_add)
  have "fl ?x = of_int (roundEven (?x * of_int (2 ^ j))) * 2 powi (?e - 52)"
    using pos by (simp add: fl_def s)
  also have "?x * of_int (2 ^ j) = (of_int (m * 2 ^ j) :: rat)" by simp
  also have "of_int (roundEven (of_int (m * 2 ^ j))) * 2 powi (?e - 52) = ?x * (of_int (2 ^ j) * 2 powi (?e - 52))"
    by (simp only: roundEven_int) simp
  also have "\<dots> = ?x" using inv unfolding s by simp
  finally show ?thesis .
qed

lemma eps_pos: "0 < eps" by (simp add: eps_def)

lemma fl_zero [simp]: "fl 0 = 0" by (simp add: fl_def)

lemma fl_close:
  assumes "0 \<le> x" "x \<le> B"
  shows "\<bar>fl x - x\<bar> \<le> B * eps"
proof (cases "x = 0")
  case True
  with assms eps_pos show ?thesis by simp
next
  case False
  with assms have "0 < x" by simp
  from fl_err[OF this] have "\<bar>fl x - x\<bar> \<le> x * eps" .
  also have "\<dots> \<le> B * eps" using assms eps_pos by (intro mult_right_mono) auto
  finally show ?thesis .
qed

lemma toFixed2_near:
  assumes "\<bar>100 * x - of_int c\<bar> < 1 / 2"
  shows "toFixed2 x = c"
  unfolding toFixed2_def using assms by (intro floor_unique) (auto simp: abs_if split: if_splits)

lemma int_div_le: "0 \<le> (m::int) \<Longrightarrow> 0 < d \<Longrightarrow> m div d \<le> m"
  by (metis div_0 int_div_le_self leI nle_le)

lemma rat_div_exact:
  "(m::int) mod d = 0 \<Longrightarrow> 0 < d \<Longrightarrow> (of_int m :: rat) / of_int d = of_int (m div d)"
  by auto

lemma int_mod_bounds:
  "(m::int) mod d \<noteq> 0 \<Longrightarrow> 0 < d \<Longrightarrow> 1 \<le> m mod d \<and> m mod d \<le> d - 1"
  by (metis int_one_le_iff_zero_less order_le_imp_less_or_eq pos_mod_bound
    pos_mod_sign zle_diff1_eq)

lemma rat_div_le:
  assumes "0 \<le> (m::int)" "0 < d"
  shows "(of_int m :: rat) / of_int d \<le> of_int m"
proof -
  have "(1::rat) \<le> of_int d" using assms(2) by simp
  then have "(of_int m :: rat) * 1 \<le> of_int m * of_int d"
    using assms(1) by (intro mult_left_mono) auto
  then show ?thesis using assms(2) by (simp add: pos_divide_le_eq)
qed

lemma floor_fl_div:
  assumes "0 \<le> m" "m \<le> 200000000" "0 < d" "d \<le> 30"
  shows "\<lfloor>fl (of_int m / of_int d)\<rfloor> = m div d"
proof (cases "m mod d = 0")
  case True
  have "0 \<le> m div d" using assms by (simp add: pos_imp_zdiv_nonneg_iff)
  moreover have "m div d < 2 ^ 53" using int_div_le[OF assms(1,3)] assms(2) by simp
  ultimately show ?thesis using rat_div_exact[OF True assms(3)] by (simp add: fl_int)
next
  case False
  define q where "q = m div d"
  define r where "r = m mod d"
  define x where "x = (of_int m :: rat) / of_int d"
  have r: "1 \<le> r" "r \<le> d - 1" using int_mod_bounds[OF False assms(3)] by (auto simp: r_def)
  have m: "m = q * d + r" by (simp add: q_def r_def)
  have dpos: "(0::rat) < of_int d" using assms(3) by simp
  have "(of_int m :: rat) = of_int q * of_int d + of_int r" by (subst m) simp
  then have xq: "x = of_int q + of_int r / of_int d"
    unfolding x_def using dpos by (simp add: field_simps)
  have d30: "1 / 30 \<le> 1 / (of_int d :: rat)"
    using assms(3,4) by (simp add: field_simps)
  have rlo: "1 / (of_int d :: rat) \<le> of_int r / of_int d"
    using r(1) dpos by (simp add: divide_right_mono)
  have rhi: "of_int r / (of_int d :: rat) \<le> 1 - 1 / of_int d"
  proof -
    have "(of_int r :: rat) \<le> of_int (d - 1)" using r(2) by (simp only: of_int_le_iff)
    then have "of_int r / (of_int d :: rat) \<le> (of_int d - 1) / of_int d"
      using dpos by (simp add: divide_right_mono)
    also have "\<dots> = 1 - 1 / of_int d" using dpos by (simp add: field_simps)
    finally show ?thesis .
  qed
  have xpos: "0 \<le> x" unfolding x_def using assms by simp
  have xle: "x \<le> 200000000"
  proof -
    have "x \<le> of_int m" unfolding x_def by (rule rat_div_le[OF assms(1,3)])
    also have "\<dots> \<le> of_int 200000000" using assms(2) by (simp only: of_int_le_iff)
    finally show ?thesis by simp
  qed
  from fl_close[OF xpos xle] have "\<bar>fl x - x\<bar> \<le> 200000000 * eps" .
  then have e: "\<bar>fl x - x\<bar> < 1 / 30" by (simp add: eps_def)
  have u1: "1 / 30 \<le> of_int r / (of_int d :: rat)" using rlo d30 by linarith
  have u2: "of_int r / (of_int d :: rat) \<le> 1 - 1 / 30" using rhi d30 by linarith
  have e1: "fl x - x < 1 / 30" and e2: "x - fl x < 1 / 30" using e by linarith+
  have "of_int q \<le> fl x" using e2 xq u1 by linarith
  moreover have "fl x < of_int q + 1" using e1 xq u2 by linarith
  ultimately have "\<lfloor>fl x\<rfloor> = q" by (intro floor_unique) auto
  then show ?thesis by (simp add: x_def q_def)
qed

lemma week_cents: "toFixed2 (fl (299 / 7)) = 4271"
  by code_simp

lemma WEEK_N_close: "\<bar>WEEK_N - 4271 / 100\<bar> \<le> 43 * eps"
  unfolding WEEK_N_def week_cents fromCents_def
  using fl_close[of "4271 / 100" 43] by simp

lemma week_product:
  assumes "0 \<le> r" "r \<le> 6"
  shows "0 \<le> fl (of_int r * WEEK_N) \<and>
         \<bar>fl (of_int r * WEEK_N) - of_int r * (4271 / 100)\<bar> \<le> 600 * eps"
proof -
  define R where "R = (of_int r :: rat)"
  have R: "0 \<le> R" "R \<le> 6" using assms unfolding R_def by simp_all
  from WEEK_N_close have w1: "WEEK_N - 4271 / 100 \<le> 43 * eps" and w2: "4271 / 100 - WEEK_N \<le> 43 * eps"
    by linarith+
  have W: "42 \<le> WEEK_N" "WEEK_N \<le> 43" using w1 w2 by (simp_all add: eps_def)
  have p0: "0 \<le> R * WEEK_N" using R W by simp
  have p1: "R * WEEK_N \<le> 6 * 43" using R W by (intro mult_mono) auto
  from fl_close[OF p0] p1 have f: "\<bar>fl (R * WEEK_N) - R * WEEK_N\<bar> \<le> 258 * eps" by simp
  have h: "R * WEEK_N - R * (4271 / 100) = R * (WEEK_N - 4271 / 100)"
    by (simp add: algebra_simps)
  have "\<bar>R * WEEK_N - R * (4271 / 100)\<bar> = R * \<bar>WEEK_N - 4271 / 100\<bar>"
    by (simp only: h abs_mult abs_of_nonneg[OF R(1)])
  also have "\<dots> \<le> 6 * (43 * eps)" using R WEEK_N_close by (intro mult_mono) auto
  finally have g: "\<bar>R * WEEK_N - R * (4271 / 100)\<bar> \<le> 258 * eps" by simp
  have close: "\<bar>fl (R * WEEK_N) - R * (4271 / 100)\<bar> \<le> 600 * eps"
    using f g eps_pos by linarith
  have "0 \<le> fl (R * WEEK_N)"
  proof (cases "r = 0")
    case True
    then show ?thesis by (simp add: R_def)
  next
    case False
    with assms have "1 \<le> r" by simp
    then have "1 \<le> R" unfolding R_def by simp
    then have "1 * 42 \<le> R * WEEK_N" using W by (intro mult_mono) auto
    with f show ?thesis by (simp add: eps_def abs_if split: if_splits)
  qed
  with close show ?thesis by (simp add: R_def)
qed

lemma jsRem_int:
  assumes "0 < d"
  shows "jsRem (of_int m) (of_int d) = of_int (m mod d)"
proof -
  have "\<lfloor>(of_int m :: rat) / of_int d\<rfloor> = m div d" by (rule floor_divide_of_int_eq)
  then have "jsRem (of_int m) (of_int d) = (of_int (m - d * (m div d)) :: rat)"
    by (simp add: jsRem_def)
  also have "m - d * (m div d) = m mod d" by (simp add: minus_mult_div_eq_mod)
  finally show ?thesis .
qed

lemma due_today_near:
  assumes "0 \<le> c" "c \<le> 1000000000000"
  shows "toFixed2 (fromCents c) = c \<and> \<bar>2 * toFixed2 (fl (fromCents c / 2)) - c\<bar> \<le> 1"
proof -
  define x where "x = (of_int c :: rat) / 100"
  define D where "D = fl x"
  have x: "0 \<le> x" "x \<le> 10000000000" using assms unfolding x_def
    by simp_all
  from fl_close[OF x] have d: "\<bar>D - x\<bar> \<le> 10000000000 * eps" by (simp add: D_def)
  have e10: "10000000000 * eps \<le> 1 / 900000" by (simp add: eps_def)
  have d1: "D - x \<le> 1 / 900000" and d2: "x - D \<le> 1 / 900000"
    using d e10 by linarith+
  have c: "(of_int c :: rat) = 100 * x" by (simp add: x_def)
  have "\<bar>100 * D - of_int c\<bar> < 1 / 2" using d1 d2 c by linarith
  then have a: "toFixed2 D = c" by (rule toFixed2_near)
  define H where "H = fl (D / 2)"
  have Dpos: "0 \<le> D / 2"
  proof (cases "c = 0")
    case True
    then show ?thesis by (simp add: D_def x_def)
  next
    case False
    with assms have "1 \<le> c" by simp
    then have "(1::rat) \<le> of_int c" by simp
    then have "1 / 100 \<le> x" by (simp add: x_def)
    with d2 show ?thesis by linarith
  qed
  have Dle: "D / 2 \<le> 10000000000" using d1 x by linarith
  from fl_close[OF Dpos Dle] have h: "\<bar>H - D / 2\<bar> \<le> 10000000000 * eps" by (simp add: H_def)
  have h1: "H - D / 2 \<le> 1 / 900000" and h2: "D / 2 - H \<le> 1 / 900000"
    using h e10 by linarith+
  define k where "k = toFixed2 H"
  have k1: "of_int k \<le> 100 * H + 1 / 2" and k2: "100 * H + 1 / 2 < of_int k + 1"
    unfolding k_def toFixed2_def by linarith+
  have e: "(of_int (2 * k - c) :: rat) = 2 * of_int k - of_int c" by simp
  have "(of_int (2 * k - c) :: rat) < 2" "(- 2 :: rat) < of_int (2 * k - c)"
    unfolding e using k1 k2 h1 h2 d1 d2 c by linarith+
  then have "2 * k - c < 2" "- 2 < 2 * k - c"
    by simp_all
  then have "\<bar>2 * k - c\<bar> \<le> 1" by simp
  with a show ?thesis by (simp add: k_def H_def D_def x_def fromCents_def)
qed

text \<open>
  C10, as the code computes it. For every number of nights up to 200,000,000 (two dates
  of JavaScript are never further apart), the discounted total shown is exactly the
  tiered price: 1099 for every 30 nights, 299 for every 7 of the nights left, and 42.71
  for each remaining night. The original price shown is 70 for each night, and the
  amount due today is an amount of whole cents nearest to half the discounted total:
  twice the amount differs from the total by one cent at most.
\<close>

theorem deal_badge_amounts:
  assumes "n \<le> 200000000"
  shows "discountedPrice (buildDealBadge (of_nat n)) =
           int ((n div 30) * 109900 + (n mod 30 div 7) * 29900 + (n mod 30 mod 7) * 4271) \<and>
         originalPrice (buildDealBadge (of_nat n)) = int (n * 7000) \<and>
         \<bar>2 * dueToday (buildDealBadge (of_nat n)) - discountedPrice (buildDealBadge (of_nat n))\<bar> \<le> 1"
proof -
  define m where "m = int n"
  define q1 where "q1 = m div 30"
  define r1 where "r1 = m mod 30"
  define q2 where "q2 = r1 div 7"
  define r where "r = r1 mod 7"
  define T where "T = q1 * 1099 + q2 * 299"
  define C where "C = 100 * T + 4271 * r"
  define p where "p = fl (of_int r * WEEK_N)"
  define t3 where "t3 = fl (of_int T + p)"
  have m: "0 \<le> m" "m \<le> 200000000" using assms by (simp_all add: m_def)
  have N: "(of_nat n :: rat) = of_int m" by (simp add: m_def)
  have q1: "0 \<le> q1" "q1 \<le> 6666666"
    using m zdiv_mono1[of m 200000000 30] by (simp_all add: q1_def pos_imp_zdiv_nonneg_iff)
  have r1: "0 \<le> r1" "r1 \<le> 29" by (simp_all add: r1_def) 
  have q2: "0 \<le> q2" "q2 \<le> 29"
    using r1 int_div_le[of r1 7] by (simp_all add: q2_def pos_imp_zdiv_nonneg_iff)
  have r: "0 \<le> r" "r \<le> 6" by (simp_all add: r_def)
  have T: "0 \<le> T" "T \<le> 8000000000" using q1 q2 by (simp_all add: T_def)
  have A: "\<lfloor>fl (of_int m / 30)\<rfloor> = q1"
    using floor_fl_div[of m 30] m by (simp add: q1_def)
  have B: "fl (of_int q1 * 1099) = of_int (q1 * 1099)"
    using fl_int[of "q1 * 1099"] q1 by simp
  have B': "fl (0 + of_int (q1 * 1099)) = of_int (q1 * 1099)"
    using fl_int[of "q1 * 1099"] q1 by simp
  have Cc: "jsRem (of_int m) 30 = of_int r1"
    using jsRem_int[of 30 m] by (simp add: r1_def)
  have D: "\<lfloor>fl (of_int r1 / 7)\<rfloor> = q2"
    using floor_fl_div[of r1 7] r1 by (simp add: q2_def)
  have E: "fl (of_int q2 * 299) = of_int (q2 * 299)"
    using fl_int[of "q2 * 299"] q2 by simp
  have F: "fl (of_int (q1 * 1099) + of_int (q2 * 299)) = of_int T"
    using fl_int[of T] T by (simp add: T_def)
  have G: "jsRem (of_int r1) 7 = of_int r"
    using jsRem_int[of 7 r1] by (simp add: r_def)
  have bd: "buildDealBadge (of_int m) =
      \<lparr>originalPrice = toFixed2 (fl (of_int m * 70)),
       discountedPrice = toFixed2 (fromCents (toFixed2 t3)),
       dueToday = toFixed2 (fl (fromCents (toFixed2 t3) / 2))\<rparr>"
    unfolding buildDealBadge_def Let_def A B B' Cc D E F G t3_def p_def ..
  from week_product[OF r] have p0: "0 \<le> p"
    and pc: "\<bar>p - of_int r * (4271 / 100)\<bar> \<le> 600 * eps" by (simp_all add: p_def)
  have rr: "(of_int r :: rat) \<le> 6" "(0::rat) \<le> of_int r" using r by simp_all
  have TT: "(0::rat) \<le> of_int T" "(of_int T :: rat) \<le> 8000000000" using T by simp_all
  have e600: "600 * eps \<le> 1 / 1000000" by (simp add: eps_def)
  have pu: "p \<le> 300" using pc rr e600 by linarith
  have s0: "0 \<le> of_int T + p" using TT p0 by simp
  have s1: "of_int T + p \<le> 10000000000" using TT pu by simp
  from fl_close[OF s0 s1] have tc: "\<bar>t3 - (of_int T + p)\<bar> \<le> 10000000000 * eps"
    by (simp add: t3_def)
  have e4: "10000000000 * eps \<le> 1 / 900000" by (simp add: eps_def)
  have Cr: "(of_int C :: rat) = 100 * of_int T + 4271 * of_int r" by (simp add: C_def)
  have "\<bar>100 * t3 - of_int C\<bar> < 1 / 2" unfolding Cr using tc pc e4 e600 by linarith
  then have fx: "toFixed2 t3 = C" by (rule toFixed2_near)
  have C: "0 \<le> C" "C \<le> 1000000000000" using T r by (simp_all add: C_def)
  from due_today_near[OF C]
  have dp: "toFixed2 (fromCents C) = C"
    and dt: "\<bar>2 * toFixed2 (fl (fromCents C / 2)) - C\<bar> \<le> 1" by simp_all
  have orig: "toFixed2 (fl (of_int m * 70)) = 7000 * m"
  proof -
    have f: "fl (of_int m * 70) = of_int (m * 70)" using fl_int[of "m * 70"] m by simp
    have "toFixed2 (of_int (m * 70)) = 7000 * m" by (rule toFixed2_near) simp
    then show ?thesis by (simp only: f)
  qed
  have Cn: "C = int ((n div 30) * 109900 + (n mod 30 div 7) * 29900 + (n mod 30 mod 7) * 4271)"
    by (simp add: C_def T_def q1_def q2_def r1_def r_def m_def zdiv_int zmod_int)
  show ?thesis unfolding N bd fx using dp dt orig Cn by (simp add: m_def)
qed

theorem deal_badge_amounts_witness:
  "(30::nat) \<le> 200000000 \<and>
   discountedPrice (buildDealBadge 30) = 109900 \<and>
   originalPrice (buildDealBadge 30) = 210000 \<and>
   \<bar>2 * dueToday (buildDealBadge 30) - discountedPrice (buildDealBadge 30)\<bar> \<le> 1"
proof -
  have b: "(30::nat) \<le> 200000000" by simp
  have e: "(of_nat 30 :: rat) = 30" by simp
  note t = deal_badge_amounts[OF b, unfolded e]
  have d: "discountedPrice (buildDealBadge 30) = 109900" using t by simp
  have o: "originalPrice (buildDealBadge 30) = 210000" using t by simp
  have h: "\<bar>2 * dueToday (buildDealBadge 30) - discountedPrice (buildDealBadge 30)\<bar> \<le> 1"
    using t by blast
  from b d o h show ?thesis by blast
qed

lemma badge_8:
  "buildDealBadge 8 = \<lparr>originalPrice = 56000, discountedPrice = 34171, dueToday = 17085\<rparr>"
  by code_simp

lemma badge_15:
  "buildDealBadge 15 = \<lparr>originalPrice = 105000, discountedPrice = 64071, dueToday = 32036\<rparr>"
  by code_simp

lemma exact_half_8: "toFixed2 (34171 / 200) = 17086"
  by code_simp

text \<open>
  C10 as stated fails for the amount due today. For 8 nights the total is 341.71 and
  its half 170.855, which rounds to 170.86; the badge shows 170.85, since the number that
  stands for 341.71 is a little less than 341.71. For 15 nights the half of 640.71 is
  320.355 and the badge shows 320.36. So no rule for the tie gives the amounts of the
  code.
\<close>

theorem due_today_not_rounded_half:
  "discountedPrice (buildDealBadge 8) = 34171 \<and>
   dueToday (buildDealBadge 8) = 17085 \<and>
   toFixed2 (34171 / 100 / 2) = 17086 \<and>
   discountedPrice (buildDealBadge 15) = 64071 \<and>
   dueToday (buildDealBadge 15) = 32036"
  by (simp add: badge_8 badge_15 exact_half_8)

end
